theory Spec2Isabelle
  imports Main
begin

section \<open>Text primitives of the Python runtime\<close>

text \<open>
  Python strings are modelled as \<^typ>\<open>string\<close>; a character stands for a code point
  below 256. The character classes are those of \<^verbatim>\<open>str.isspace\<close>, \<^verbatim>\<open>str.isdigit\<close>,
  \<^verbatim>\<open>str.isalnum\<close> and \<^verbatim>\<open>str.isdecimal\<close> on that range.
\<close>

definition code :: "char \<Rightarrow> nat" where
  "code c = of_char c"

definition is_space :: "char \<Rightarrow> bool" where
  "is_space c = (let n = code c in
     (9 \<le> n \<and> n \<le> 13) \<or> (28 \<le> n \<and> n \<le> 32) \<or> n = 133 \<or> n = 160)"

definition is_decimal :: "char \<Rightarrow> bool" where
  "is_decimal c = (let n = code c in 48 \<le> n \<and> n \<le> 57)"

definition is_digit :: "char \<Rightarrow> bool" where
  "is_digit c = (let n = code c in
     (48 \<le> n \<and> n \<le> 57) \<or> n = 178 \<or> n = 179 \<or> n = 185)"

definition is_alnum :: "char \<Rightarrow> bool" where
  "is_alnum c = (let n = code c in
     (48 \<le> n \<and> n \<le> 57) \<or> (65 \<le> n \<and> n \<le> 90) \<or> (97 \<le> n \<and> n \<le> 122) \<or>
     n = 170 \<or> n = 178 \<or> n = 179 \<or> n = 181 \<or> n = 185 \<or> n = 186 \<or>
     (188 \<le> n \<and> n \<le> 190) \<or> (192 \<le> n \<and> n \<le> 214) \<or>
     (216 \<le> n \<and> n \<le> 246) \<or> (248 \<le> n \<and> n \<le> 255))"

text \<open>The regular-expression class \<^verbatim>\<open>\w\<close>.\<close>

definition is_word :: "char \<Rightarrow> bool" where
  "is_word c = (is_alnum c \<or> c = CHR ''_'')"

definition LF :: char where
  "LF = CHR 0x0A"

definition CR :: char where
  "CR = CHR 0x0D"

definition DQ :: char where
  "DQ = CHR 0x22"

text \<open>\<^verbatim>\<open>s.strip()\<close>\<close>

definition strip :: "string \<Rightarrow> string" where
  "strip s = rev (dropWhile is_space (rev (dropWhile is_space s)))"

text \<open>\<^verbatim>\<open>s.isdigit()\<close>: false on the empty string.\<close>

definition isdigit :: "string \<Rightarrow> bool" where
  "isdigit s = (s \<noteq> [] \<and> list_all is_digit s)"

text \<open>\<^verbatim>\<open>s.split()\<close>: the maximal runs of non-whitespace characters; \<open>cur\<close> is the run
  being read.\<close>

fun split_acc :: "string \<Rightarrow> string \<Rightarrow> string list" where
  "split_acc [] cur = (if cur = [] then [] else [cur])"
| "split_acc (c # cs) cur =
     (if is_space c then (if cur = [] then split_acc cs [] else cur # split_acc cs [])
      else split_acc cs (cur @ [c]))"

definition py_split :: "string \<Rightarrow> string list" where
  "py_split s = split_acc s []"

text \<open>\<^verbatim>\<open>sep.join(xs)\<close>\<close>

fun join :: "string \<Rightarrow> string list \<Rightarrow> string" where
  "join sep [] = []"
| "join sep [x] = x"
| "join sep (x # y # ys) = x @ sep @ join sep (y # ys)"

text \<open>\<^verbatim>\<open>s.replace(" ", "_")\<close>\<close>

definition replace_space :: "string \<Rightarrow> string" where
  "replace_space s = map (\<lambda>c. if c = CHR '' '' then CHR ''_'' else c) s"

text \<open>\<^verbatim>\<open>xs[a:b]\<close> for \<open>0 \<le> a \<le> b\<close>\<close>

definition slice :: "'a list \<Rightarrow> nat \<Rightarrow> nat \<Rightarrow> 'a list" where
  "slice xs a b = take (b - a) (drop a xs)"

text \<open>The decimal rendering of a natural number, \<^verbatim>\<open>f"{n}"\<close>.\<close>

definition digit_char :: "nat \<Rightarrow> char" where
  "digit_char d = char_of (48 + d)"

function show_nat :: "nat \<Rightarrow> string" where
  "show_nat n = (if n < 10 then [digit_char n] else show_nat (n div 10) @ [digit_char (n mod 10)])"
  by pat_completeness auto
termination
  by (relation "measure id") auto

declare show_nat.simps [simp del]

text \<open>
  Reading a file opened in text mode: \<^verbatim>\<open>\r\n\<close> and \<^verbatim>\<open>\r\<close> become \<^verbatim>\<open>\n\<close>, and iteration
  yields the lines with their terminator (the last line may have none).
\<close>

fun universal_newlines :: "string \<Rightarrow> string" where
  "universal_newlines [] = []"
| "universal_newlines [c] = (if c = CR then [LF] else [c])"
| "universal_newlines (c # d # cs) =
     (if c = CR \<and> d = LF then LF # universal_newlines cs
      else if c = CR then LF # universal_newlines (d # cs)
      else c # universal_newlines (d # cs))"

fun lines_acc :: "string \<Rightarrow> string \<Rightarrow> string list" where
  "lines_acc [] cur = (if cur = [] then [] else [cur])"
| "lines_acc (c # cs) cur =
     (if c = LF then (cur @ [c]) # lines_acc cs [] else lines_acc cs (cur @ [c]))"

definition file_lines :: "string \<Rightarrow> string list" where
  "file_lines text = lines_acc (universal_newlines text) []"

section \<open>Messages, exceptions and the file system\<close>

text \<open>
  The program prints its warnings and violation descriptions and raises exceptions with
  formatted messages. A message is represented by a constructor that carries the values
  interpolated into the source's format string.
\<close>

datatype message =
    BlankLineWarning string nat
  | NotExistWarning string
  | FrameCountViolation string nat nat
  | LabelCountViolation string nat nat
  | CoordLengthViolation nat nat nat
  | ForceLengthViolation nat nat nat
  | ProcessingFrame nat nat
  | MissingEnergy nat
  | MissingCoordinates nat
  | MissingAtomType nat nat
  | IncompleteCoordinates nat nat
  | IncompleteForces nat nat
  | MissingLabelWarning nat string
  | ValidationFailed
  | GenerationFailed
  | SplitFailed
  | Builtin

datatype exn =
    IndexError message
  | ValueError message
  | TypeError message
  | FileNotFoundError message

type_synonym 'a outcome = "message list \<times> (exn + 'a)"

type_synonym filesystem = "string \<rightharpoonup> string"

section \<open>Column reader and label reader\<close>

fun read_file_loop :: "string \<Rightarrow> nat \<Rightarrow> string list \<Rightarrow> message list \<times> string list list" where
  "read_file_loop file_path line_num [] = ([], [])"
| "read_file_loop file_path line_num (line # rest) =
     (let stripped_line = strip line;
          (warnings, data) = read_file_loop file_path (Suc line_num) rest
      in if stripped_line \<noteq> [] then (warnings, py_split stripped_line # data)
         else (BlankLineWarning file_path line_num # warnings, data))"

definition read_file :: "filesystem \<Rightarrow> string \<Rightarrow> string list list outcome" where
  "read_file fs file_path =
     (case fs file_path of
        None \<Rightarrow> ([], Inl (FileNotFoundError Builtin))
      | Some text \<Rightarrow>
          (let (warnings, data) = read_file_loop file_path 1 (file_lines text)
           in (warnings, Inr data)))"

fun read_label_loop :: "string \<Rightarrow> nat \<Rightarrow> string list \<Rightarrow> message list \<times> string list" where
  "read_label_loop file_path line_num [] = ([], [])"
| "read_label_loop file_path line_num (line # rest) =
     (let stripped_line = strip line;
          (warnings, data) = read_label_loop file_path (Suc line_num) rest
      in if stripped_line \<noteq> [] then (warnings, stripped_line # data)
         else (BlankLineWarning file_path line_num # warnings, data))"

text \<open>\<^verbatim>\<open>read_label_file\<close> returns \<^verbatim>\<open>None\<close> for a path that does not exist.\<close>

definition read_label_file :: "filesystem \<Rightarrow> string \<Rightarrow> message list \<times> string list option" where
  "read_label_file fs file_path =
     (case fs file_path of
        None \<Rightarrow> ([NotExistWarning file_path], None)
      | Some text \<Rightarrow>
          (let (warnings, data) = read_label_loop file_path 1 (file_lines text)
           in (warnings, Some data)))"

text \<open>\<^verbatim>\<open>rows[i][0]\<close>\<close>

definition first_token :: "string list list \<Rightarrow> nat \<Rightarrow> exn + string" where
  "first_token rows i =
     (if i < length rows
      then (case rows ! i of [] \<Rightarrow> Inl (IndexError Builtin) | t # _ \<Rightarrow> Inr t)
      else Inl (IndexError Builtin))"

section \<open>Consistency validator\<close>

text \<open>
  A label value is a string; the extended serializer also accepts a list of strings
  (its \<^verbatim>\<open>isinstance(value, list)\<close> branch). A label sequence is \<^verbatim>\<open>None\<close> when the label
  file was absent. The \<^verbatim>\<open>labels\<close> dictionary is an association list in insertion order.
\<close>

datatype label_value = LStr string | LList "string list"

type_synonym rows = "string list list"

type_synonym labels = "(string \<times> label_value list option) list"

text \<open>\<^verbatim>\<open>d[k] = v\<close> on an insertion-ordered dictionary.\<close>

fun dict_set :: "('k \<times> 'v) list \<Rightarrow> 'k \<Rightarrow> 'v \<Rightarrow> ('k \<times> 'v) list" where
  "dict_set [] k v = [(k, v)]"
| "dict_set ((k', v') # d) k v = (if k' = k then (k, v) # d else (k', v') # dict_set d k v)"

text \<open>The loop over \<^verbatim>\<open>labels.items()\<close>; \<^verbatim>\<open>len(None)\<close> raises \<^verbatim>\<open>TypeError\<close>.\<close>

fun label_checks :: "nat \<Rightarrow> labels \<Rightarrow> exn + message list" where
  "label_checks num_frames [] = Inr []"
| "label_checks num_frames ((label_name, label_values) # rest) =
     (case label_values of
        None \<Rightarrow> Inl (TypeError Builtin)
      | Some vs \<Rightarrow>
          (case label_checks num_frames rest of
             Inl e \<Rightarrow> Inl e
           | Inr errors \<Rightarrow>
               Inr ((if length vs \<noteq> num_frames
                     then [LabelCountViolation label_name (length vs) num_frames] else [])
                    @ errors)))"

text \<open>The loop \<^verbatim>\<open>for i in range(num_frames)\<close>; \<^verbatim>\<open>coordinates[i]\<close> and \<^verbatim>\<open>forces[i]\<close> raise
  \<^verbatim>\<open>IndexError\<close> out of range.\<close>

fun frame_checks :: "rows \<Rightarrow> rows \<Rightarrow> rows option \<Rightarrow> nat list \<Rightarrow> exn + message list" where
  "frame_checks atom_types coordinates forces [] = Inr []"
| "frame_checks atom_types coordinates forces (i # is) =
     (let num_atoms = length (atom_types ! i);
          expected_coord_length = num_atoms * 3
      in if \<not> i < length coordinates then Inl (IndexError Builtin)
         else
           let coord_errors =
                 (if length (coordinates ! i) \<noteq> expected_coord_length
                  then [CoordLengthViolation i expected_coord_length (length (coordinates ! i))]
                  else [])
           in (case forces of
                 None \<Rightarrow>
                   (case frame_checks atom_types coordinates forces is of
                      Inl e \<Rightarrow> Inl e
                    | Inr errors \<Rightarrow> Inr (coord_errors @ errors))
               | Some fs \<Rightarrow>
                   (let expected_force_length = num_atoms * 3
                    in if \<not> i < length fs then Inl (IndexError Builtin)
                       else
                         let force_errors =
                               (if length (fs ! i) \<noteq> expected_force_length
                                then [ForceLengthViolation i expected_force_length (length (fs ! i))]
                                else [])
                         in (case frame_checks atom_types coordinates forces is of
                               Inl e \<Rightarrow> Inl e
                             | Inr errors \<Rightarrow> Inr (coord_errors @ force_errors @ errors)))))"

text \<open>The frame-count checks made before the loops.\<close>

definition count_checks :: "rows \<Rightarrow> rows \<Rightarrow> rows \<Rightarrow> rows option \<Rightarrow> rows option \<Rightarrow> message list" where
  "count_checks atom_types coordinates energies forces box =
     (let num_frames = length atom_types
      in (if length coordinates \<noteq> num_frames
          then [FrameCountViolation ''coordinates'' num_frames (length coordinates)] else [])
       @ (if length energies \<noteq> num_frames
          then [FrameCountViolation ''energies'' num_frames (length energies)] else [])
       @ (case forces of
            None \<Rightarrow> []
          | Some fs \<Rightarrow> if length fs \<noteq> num_frames
                       then [FrameCountViolation ''forces'' num_frames (length fs)] else [])
       @ (case box of
            None \<Rightarrow> []
          | Some b \<Rightarrow> if length b \<noteq> num_frames
                      then [FrameCountViolation ''box'' num_frames (length b)] else []))"

text \<open>
  The result is the printed text and either the exception raised or normal return. The
  violations are printed only when the end of the function is reached.
\<close>

definition validate_data_consistency ::
  "rows \<Rightarrow> rows \<Rightarrow> rows \<Rightarrow> rows option \<Rightarrow> rows option \<Rightarrow> labels \<Rightarrow> unit outcome" where
  "validate_data_consistency atom_types coordinates energies forces box labels =
     (let num_frames = length atom_types;
          errors1 = count_checks atom_types coordinates energies forces box
      in case label_checks num_frames labels of
           Inl e \<Rightarrow> ([], Inl e)
         | Inr errors2 \<Rightarrow>
             (case frame_checks atom_types coordinates forces [0..<num_frames] of
                Inl e \<Rightarrow> ([], Inl e)
              | Inr errors3 \<Rightarrow>
                  (let errors = errors1 @ errors2 @ errors3
                   in if errors \<noteq> [] then (errors, Inl (ValueError ValidationFailed))
                      else ([], Inr ()))))"

section \<open>Plain trajectory serializer\<close>

text \<open>The loop \<^verbatim>\<open>for j in range(num_atoms)\<close> of frame \<open>i\<close>.\<close>

fun xyz_atoms :: "string list \<Rightarrow> string list \<Rightarrow> nat \<Rightarrow> nat list \<Rightarrow> exn + string list" where
  "xyz_atoms atoms coords i [] = Inr []"
| "xyz_atoms atoms coords i (j # js) =
     (if \<not> j < length atoms then Inl (IndexError (MissingAtomType i j))
      else
        let atom = atoms ! j;
            coord_start = j * 3;
            coord_end = (j + 1) * 3
        in if coord_end > length coords then Inl (IndexError (IncompleteCoordinates i j))
           else
             let coord = slice coords coord_start coord_end
             in (case xyz_atoms atoms coords i js of
                   Inl e \<Rightarrow> Inl e
                 | Inr content \<Rightarrow> Inr ((atom @ '' '' @ join '' '' coord) # content)))"

text \<open>One iteration of the frame loop: the lines appended to \<^verbatim>\<open>content\<close>, or the exception.\<close>

definition xyz_frame :: "rows \<Rightarrow> rows \<Rightarrow> rows \<Rightarrow> nat \<Rightarrow> exn + string list" where
  "xyz_frame atom_types coordinates energies i =
     (let num_atoms = length (atom_types ! i)
      in if \<not> i < length energies then Inl (IndexError (MissingEnergy i))
         else
           (case first_token energies i of
              Inl e \<Rightarrow> Inl e
            | Inr energy \<Rightarrow>
                if \<not> i < length coordinates then Inl (IndexError (MissingCoordinates i))
                else if length (coordinates ! i) \<noteq> num_atoms * 3
                then Inl (ValueError (CoordLengthViolation i (num_atoms * 3) (length (coordinates ! i))))
                else
                  (case xyz_atoms (atom_types ! i) (coordinates ! i) i [0..<num_atoms] of
                     Inl e \<Rightarrow> Inl e
                   | Inr atom_lines \<Rightarrow>
                       Inr (([CHR '' '', CHR '' '', CHR '' '', CHR '' '', CHR '' ''] @ show_nat num_atoms)
                            # ('' i = '' @ show_nat i @ '', E = '' @ energy)
                            # atom_lines))))"

fun xyz_frames :: "rows \<Rightarrow> rows \<Rightarrow> rows \<Rightarrow> nat list \<Rightarrow> string list outcome" where
  "xyz_frames atom_types coordinates energies [] = ([], Inr [])"
| "xyz_frames atom_types coordinates energies (i # is) =
     (let progress = ProcessingFrame i (length (atom_types ! i))
      in case xyz_frame atom_types coordinates energies i of
           Inl e \<Rightarrow> ([progress], Inl e)
         | Inr frame_lines \<Rightarrow>
             (case xyz_frames atom_types coordinates energies is of
                (printed, Inl e) \<Rightarrow> (progress # printed, Inl e)
              | (printed, Inr content) \<Rightarrow> (progress # printed, Inr (frame_lines @ content))))"

definition generate_xyz_content :: "rows \<Rightarrow> rows \<Rightarrow> rows \<Rightarrow> string outcome" where
  "generate_xyz_content atom_types coordinates energies =
     (case xyz_frames atom_types coordinates energies [0..<length atom_types] of
        (printed, Inl e) \<Rightarrow> (printed, Inl e)
      | (printed, Inr content) \<Rightarrow> (printed, Inr (join [LF] content)))"

section \<open>Extended trajectory serializer\<close>

definition properties_token :: "rows option \<Rightarrow> string" where
  "properties_token forces =
     ''Properties=species:S:1:pos:R:3'' @ (if forces \<noteq> None then '':forces:R:3'' else [])"

text \<open>The value written for a label: \<^verbatim>\<open>"None"\<close> for the empty string, a list joined with
  spaces, and every space replaced by an underscore.\<close>

definition render_label :: "label_value \<Rightarrow> string" where
  "render_label v =
     (let value = (if v \<noteq> LStr [] then v else LStr ''None'');
          text = (case value of LList xs \<Rightarrow> join '' '' xs | LStr s \<Rightarrow> s)
      in replace_space text)"

text \<open>The body of the loop over \<^verbatim>\<open>labels.items()\<close> for frame \<open>i\<close>: the warning printed and
  the text appended to the metadata line.\<close>

definition label_token :: "nat \<Rightarrow> string \<times> label_value list option \<Rightarrow> message list \<times> string" where
  "label_token i entry =
     (case entry of
        (label, None) \<Rightarrow> ([MissingLabelWarning i label], [])
      | (label, Some vs) \<Rightarrow>
          if i < length vs then ([], '' '' @ label @ ''='' @ render_label (vs ! i))
          else ([MissingLabelWarning i label], []))"

fun label_tokens :: "labels \<Rightarrow> nat \<Rightarrow> message list \<times> string" where
  "label_tokens [] i = ([], [])"
| "label_tokens (entry # rest) i =
     (let (warning, token) = label_token i entry;
          (warnings, text) = label_tokens rest i
      in (warning @ warnings, token @ text))"

definition pbc_value :: "string \<Rightarrow> rows option \<Rightarrow> nat \<Rightarrow> string" where
  "pbc_value pbc_option box i =
     (if pbc_option = ''box'' \<and> box \<noteq> None
      then (if i < length (the box) then join '' '' (the box ! i) else ''F F F'')
      else ''F F F'')"

definition metadata_line ::
  "rows option \<Rightarrow> labels \<Rightarrow> string \<Rightarrow> rows option \<Rightarrow> string \<Rightarrow> nat \<Rightarrow> string" where
  "metadata_line forces labels energy box pbc_option i =
     properties_token forces @ snd (label_tokens labels i) @ '' energy='' @ energy
     @ '' pbc='' @ [DQ] @ pbc_value pbc_option box i @ [DQ]"

text \<open>The loop \<^verbatim>\<open>for j in range(num_atoms)\<close> of frame \<open>i\<close>; \<open>force_row\<close> is \<^verbatim>\<open>forces[i]\<close>
  when forces are given.\<close>

fun extxyz_atoms ::
  "string list \<Rightarrow> string list \<Rightarrow> string list option \<Rightarrow> nat \<Rightarrow> nat list \<Rightarrow> exn + string list" where
  "extxyz_atoms atoms coords force_row i [] = Inr []"
| "extxyz_atoms atoms coords force_row i (j # js) =
     (if \<not> j < length atoms then Inl (IndexError (MissingAtomType i j))
      else
        let atom = atoms ! j;
            coord_start = j * 3;
            coord_end = (j + 1) * 3
        in if coord_end > length coords then Inl (IndexError (IncompleteCoordinates i j))
           else
             let coord = slice coords coord_start coord_end;
                 line = atom @ '' '' @ join '' '' coord
             in (case force_row of
                   None \<Rightarrow>
                     (case extxyz_atoms atoms coords force_row i js of
                        Inl e \<Rightarrow> Inl e
                      | Inr content \<Rightarrow> Inr (line # content))
                 | Some fr \<Rightarrow>
                     (let force_start = j * 3;
                          force_end = (j + 1) * 3
                      in if force_end > length fr then Inl (IndexError (IncompleteForces i j))
                         else
                           let force = slice fr force_start force_end
                           in (case extxyz_atoms atoms coords force_row i js of
                                 Inl e \<Rightarrow> Inl e
                               | Inr content \<Rightarrow> Inr ((line @ '' '' @ join '' '' force) # content)))))"

text \<open>The length check on \<^verbatim>\<open>forces[i]\<close>.\<close>

definition force_row_check :: "rows option \<Rightarrow> nat \<Rightarrow> nat \<Rightarrow> exn + string list option" where
  "force_row_check forces i num_atoms =
     (case forces of
        None \<Rightarrow> Inr None
      | Some fs \<Rightarrow>
          if \<not> i < length fs then Inl (IndexError Builtin)
          else if length (fs ! i) \<noteq> num_atoms * 3
          then Inl (ValueError (ForceLengthViolation i (num_atoms * 3) (length (fs ! i))))
          else Inr (Some (fs ! i)))"

text \<open>One iteration of the frame loop: what it prints, and the lines it appends to
  \<^verbatim>\<open>content\<close> or the exception it raises.\<close>

definition extxyz_frame ::
  "rows \<Rightarrow> rows \<Rightarrow> rows \<Rightarrow> rows option \<Rightarrow> rows option \<Rightarrow> labels \<Rightarrow> string \<Rightarrow> nat
     \<Rightarrow> string list outcome" where
  "extxyz_frame atom_types coordinates energies forces box labels pbc_option i =
     (let num_atoms = length (atom_types ! i);
          progress = ProcessingFrame i num_atoms
      in if \<not> i < length energies then ([progress], Inl (IndexError (MissingEnergy i)))
         else
           let printed = progress # fst (label_tokens labels i)
           in (case first_token energies i of
                 Inl e \<Rightarrow> (printed, Inl e)
               | Inr energy \<Rightarrow>
                   (let line = metadata_line forces labels energy box pbc_option i
                    in if \<not> i < length coordinates then (printed, Inl (IndexError Builtin))
                       else if length (coordinates ! i) \<noteq> num_atoms * 3
                       then (printed, Inl (ValueError
                               (CoordLengthViolation i (num_atoms * 3) (length (coordinates ! i)))))
                       else
                         (case force_row_check forces i num_atoms of
                            Inl e \<Rightarrow> (printed, Inl e)
                          | Inr force_row \<Rightarrow>
                              (case extxyz_atoms (atom_types ! i) (coordinates ! i) force_row i
                                      [0..<num_atoms] of
                                 Inl e \<Rightarrow> (printed, Inl e)
                               | Inr atom_lines \<Rightarrow>
                                   (printed, Inr (show_nat num_atoms # line # atom_lines)))))))"

fun extxyz_frames ::
  "rows \<Rightarrow> rows \<Rightarrow> rows \<Rightarrow> rows option \<Rightarrow> rows option \<Rightarrow> labels \<Rightarrow> string \<Rightarrow> nat list
     \<Rightarrow> string list outcome" where
  "extxyz_frames atom_types coordinates energies forces box labels pbc_option [] = ([], Inr [])"
| "extxyz_frames atom_types coordinates energies forces box labels pbc_option (i # is) =
     (case extxyz_frame atom_types coordinates energies forces box labels pbc_option i of
        (printed, Inl e) \<Rightarrow> (printed, Inl e)
      | (printed, Inr frame_lines) \<Rightarrow>
          (case extxyz_frames atom_types coordinates energies forces box labels pbc_option is of
             (printed', Inl e) \<Rightarrow> (printed @ printed', Inl e)
           | (printed', Inr content) \<Rightarrow> (printed @ printed', Inr (frame_lines @ content))))"

definition generate_extxyz_content ::
  "rows \<Rightarrow> rows \<Rightarrow> rows \<Rightarrow> rows option \<Rightarrow> rows option \<Rightarrow> labels \<Rightarrow> string \<Rightarrow> string outcome" where
  "generate_extxyz_content atom_types coordinates energies forces box labels pbc_option =
     (case extxyz_frames atom_types coordinates energies forces box labels pbc_option
             [0..<length atom_types] of
        (printed, Inl e) \<Rightarrow> (printed, Inl e)
      | (printed, Inr content) \<Rightarrow> (printed, Inr (join [LF] content)))"

section \<open>Conversion entry points\<close>

text \<open>Sequencing of two steps that print and may raise.\<close>

definition and_then :: "'a outcome \<Rightarrow> ('a \<Rightarrow> 'b outcome) \<Rightarrow> 'b outcome" where
  "and_then m f =
     (case m of
        (printed, Inl e) \<Rightarrow> (printed, Inl e)
      | (printed, Inr x) \<Rightarrow> (case f x of (printed', r) \<Rightarrow> (printed @ printed', r)))"

text \<open>\<^verbatim>\<open>read_file(f.name) if f else None\<close>\<close>

definition read_optional :: "filesystem \<Rightarrow> string option \<Rightarrow> rows option outcome" where
  "read_optional fs file =
     (case file of
        None \<Rightarrow> ([], Inr None)
      | Some file_path \<Rightarrow> and_then (read_file fs file_path) (\<lambda>data. ([], Inr (Some data))))"

text \<open>\<^verbatim>\<open>os.path.basename\<close> and the root part of \<^verbatim>\<open>os.path.splitext\<close> (POSIX).\<close>

definition basename :: "string \<Rightarrow> string" where
  "basename p = rev (takeWhile (\<lambda>c. c \<noteq> CHR ''/'') (rev p))"

definition splitext_root :: "string \<Rightarrow> string" where
  "splitext_root p =
     (let name = basename p;
          dir = take (length p - length name) p;
          ext = rev (takeWhile (\<lambda>c. c \<noteq> CHR ''.'') (rev name));
          stem = take (length name - length ext - 1) name
      in if CHR ''.'' \<in> set name \<and> (\<exists>c\<in>set stem. c \<noteq> CHR ''.'') then dir @ stem else p)"

definition label_name_of :: "string \<Rightarrow> string" where
  "label_name_of file_path = splitext_root (basename file_path)"

text \<open>The loop over \<^verbatim>\<open>label_files\<close>, filling the \<^verbatim>\<open>labels\<close> dictionary.\<close>

fun read_labels :: "filesystem \<Rightarrow> string list \<Rightarrow> labels \<Rightarrow> message list \<times> labels" where
  "read_labels fs [] labels = ([], labels)"
| "read_labels fs (label_file # rest) labels =
     (let label_name = label_name_of label_file;
          (printed, values) = read_label_file fs label_file;
          (printed', labels') =
             read_labels fs rest (dict_set labels label_name (map_option (map LStr) values))
      in (printed @ printed', labels'))"

text \<open>
  The structure handed to the visualization. The conversion of a token by \<^verbatim>\<open>float\<close> is a
  parameter \<open>to_float\<close> of the model, which may raise.
\<close>

record 'f frame_view =
  view_frame :: nat
  view_atoms :: "string list"
  view_coords :: "'f list list"

fun map_raise :: "('a \<Rightarrow> exn + 'b) \<Rightarrow> 'a list \<Rightarrow> exn + 'b list" where
  "map_raise f [] = Inr []"
| "map_raise f (x # xs) =
     (case f x of
        Inl e \<Rightarrow> Inl e
      | Inr y \<Rightarrow> (case map_raise f xs of Inl e \<Rightarrow> Inl e | Inr ys \<Rightarrow> Inr (y # ys)))"

text \<open>The frame dictionary of frame \<open>i\<close>. \<^verbatim>\<open>coordinates[i]\<close> is read inside the comprehension,
  once for each atom, so a frame without atoms reads nothing.\<close>

definition project_frame ::
  "(string \<Rightarrow> exn + 'f) \<Rightarrow> rows \<Rightarrow> rows \<Rightarrow> nat \<Rightarrow> exn + 'f frame_view" where
  "project_frame to_float atom_types coordinates i =
     (case map_raise
             (\<lambda>j. if \<not> i < length coordinates then Inl (IndexError Builtin)
                  else map_raise to_float (slice (coordinates ! i) (j * 3) ((j + 1) * 3)))
             [0..<length (atom_types ! i)] of
        Inl e \<Rightarrow> Inl e
      | Inr cs \<Rightarrow> Inr \<lparr>view_frame = i, view_atoms = atom_types ! i, view_coords = cs\<rparr>)"

definition project_frames ::
  "(string \<Rightarrow> exn + 'f) \<Rightarrow> rows \<Rightarrow> rows \<Rightarrow> exn + 'f frame_view list" where
  "project_frames to_float atom_types coordinates =
     map_raise (project_frame to_float atom_types coordinates) [0..<length atom_types]"

text \<open>
  \<^verbatim>\<open>generate_xyz\<close> and \<^verbatim>\<open>generate_extxyz\<close> (the second of its two definitions, which is the
  one in effect). The result is the text written to the output file with the frame views,
  or \<^verbatim>\<open>None\<close> when the serializer raised inside the \<^verbatim>\<open>try\<close> block.
\<close>

definition generate_xyz ::
  "(string \<Rightarrow> exn + 'f) \<Rightarrow> filesystem \<Rightarrow> string \<Rightarrow> string \<Rightarrow> string
     \<Rightarrow> (string \<times> 'f frame_view list) option outcome" where
  "generate_xyz to_float fs atom_types_file coordinates_file energies_file =
     and_then (read_file fs atom_types_file) (\<lambda>atom_types.
     and_then (read_file fs coordinates_file) (\<lambda>coordinates.
     and_then (read_file fs energies_file) (\<lambda>energies.
     and_then (validate_data_consistency atom_types coordinates energies None None []) (\<lambda>_.
       case generate_xyz_content atom_types coordinates energies of
         (printed, Inl e) \<Rightarrow> (printed @ [GenerationFailed], Inr None)
       | (printed, Inr xyz_content) \<Rightarrow>
           (case project_frames to_float atom_types coordinates of
              Inl e \<Rightarrow> (printed, Inl e)
            | Inr frames \<Rightarrow> (printed, Inr (Some (xyz_content, frames))))))))"

definition generate_extxyz ::
  "(string \<Rightarrow> exn + 'f) \<Rightarrow> filesystem \<Rightarrow> string \<Rightarrow> string \<Rightarrow> string \<Rightarrow> string option
     \<Rightarrow> string option \<Rightarrow> string list option \<Rightarrow> string
     \<Rightarrow> (string \<times> 'f frame_view list) option outcome" where
  "generate_extxyz to_float fs atom_types_file coordinates_file energies_file forces_file
       box_file label_files pbc_option =
     and_then (read_file fs atom_types_file) (\<lambda>atom_types.
     and_then (read_file fs coordinates_file) (\<lambda>coordinates.
     and_then (read_file fs energies_file) (\<lambda>energies.
     and_then (read_optional fs forces_file) (\<lambda>forces.
     and_then (read_optional fs box_file) (\<lambda>box.
     and_then (case label_files of
                 None \<Rightarrow> ([], Inr [])
               | Some files \<Rightarrow> (case read_labels fs files [] of (printed, labels) \<Rightarrow> (printed, Inr labels)))
       (\<lambda>labels.
     and_then (validate_data_consistency atom_types coordinates energies forces box labels) (\<lambda>_.
       case generate_extxyz_content atom_types coordinates energies forces box labels pbc_option of
         (printed, Inl e) \<Rightarrow> (printed @ [GenerationFailed], Inr None)
       | (printed, Inr extxyz_content) \<Rightarrow>
           (case project_frames to_float atom_types coordinates of
              Inl e \<Rightarrow> (printed, Inl e)
            | Inr frames \<Rightarrow> (printed, Inr (Some (extxyz_content, frames)))))))))))"

section \<open>Extended trajectory parser\<close>

text \<open>\<^verbatim>\<open>s.split(sep)\<close> for a one-character separator: always at least one part.\<close>

fun split_on :: "char \<Rightarrow> string \<Rightarrow> string \<Rightarrow> string list" where
  "split_on sep [] cur = [cur]"
| "split_on sep (c # cs) cur =
     (if c = sep then cur # split_on sep cs [] else split_on sep cs (cur @ [c]))"

text \<open>\<^verbatim>\<open>parse_properties\<close>: \<^verbatim>\<open>split('=')[1]\<close> raises \<^verbatim>\<open>IndexError\<close> on a line without \<^verbatim>\<open>=\<close>.\<close>

definition parse_properties :: "string \<Rightarrow> exn + string list list" where
  "parse_properties properties_str =
     (let parts = split_on (CHR ''='') properties_str []
      in if length parts < 2 then Inl (IndexError Builtin)
         else Inr (map (\<lambda>prop. split_on (CHR '':'') prop []) (split_on (CHR '':'') (parts ! 1) [])))"

text \<open>
  \<^verbatim>\<open>re.findall(r'(\w+)=([^ ]+)', line)\<close>. A match starts at the leftmost position where a
  maximal run of word characters is followed by \<^verbatim>\<open>=\<close> and at least one character other
  than a space; the value is the maximal run of such characters, and the scan goes on
  after it. \<open>match_label s\<close> is the match starting at the head of \<open>s\<close>, with the text
  that follows it.
\<close>

definition match_label :: "string \<Rightarrow> (string \<times> string \<times> string) option" where
  "match_label s =
     (let key = takeWhile is_word s;
          rest = dropWhile is_word s;
          value = takeWhile (\<lambda>x. x \<noteq> CHR '' '') (tl rest)
      in if key \<noteq> [] \<and> rest \<noteq> [] \<and> hd rest = CHR ''='' \<and> value \<noteq> []
         then Some (key, value, dropWhile (\<lambda>x. x \<noteq> CHR '' '') (tl rest))
         else None)"

lemma match_label_shorter:
  assumes "match_label s = Some (key, value, after)"
  shows "length after < length s"
proof -
  let ?rest = "dropWhile is_word s"
  from assms have ne: "?rest \<noteq> []" and after: "after = dropWhile (\<lambda>x. x \<noteq> CHR '' '') (tl ?rest)"
    by (simp_all add: match_label_def Let_def split: if_splits)
  have "length after \<le> length (tl ?rest)" unfolding after by (rule length_dropWhile_le)
  also from ne have "length (tl ?rest) < length ?rest" by simp
  also have "length ?rest \<le> length s" by (rule length_dropWhile_le)
  finally show ?thesis .
qed

function findall_labels :: "string \<Rightarrow> (string \<times> string) list" where
  "findall_labels [] = []"
| "findall_labels (c # cs) =
     (case match_label (c # cs) of
        None \<Rightarrow> findall_labels cs
      | Some (key, value, after) \<Rightarrow> (key, value) # findall_labels after)"
  by pat_completeness auto
termination
  by (relation "measure length") (auto dest: match_label_shorter)

declare findall_labels.simps [simp del]

text \<open>The body of the loop of \<^verbatim>\<open>parse_labels\<close> over the matches.\<close>

definition add_label :: "(string \<times> string) list \<Rightarrow> string \<times> string \<Rightarrow> (string \<times> string) list" where
  "add_label labels m =
     (case m of (key, value) \<Rightarrow>
        if key \<noteq> ''Properties'' \<and> key \<noteq> ''pbc'' then dict_set labels key value else labels)"

definition parse_labels :: "string \<Rightarrow> (string \<times> string) list" where
  "parse_labels line = foldl add_label [] (findall_labels line)"

text \<open>\<^verbatim>\<open>re.search(r'pbc="([^"]+)"', line)\<close>: group 1 of the leftmost match, if any.\<close>

fun parse_pbc :: "string \<Rightarrow> string option" where
  "parse_pbc [] = None"
| "parse_pbc (c # cs) =
     (let after = drop 5 (c # cs);
          value = takeWhile (\<lambda>x. x \<noteq> DQ) after
      in if take 5 (c # cs) = ''pbc='' @ [DQ] \<and> value \<noteq> [] \<and> dropWhile (\<lambda>x. x \<noteq> DQ) after \<noteq> []
         then Some value
         else parse_pbc cs)"

text \<open>\<^verbatim>\<open>int(s)\<close> on a string: optional sign, decimal digits, single underscores between
  digits, surrounding whitespace ignored.\<close>

fun digit_groups :: "string \<Rightarrow> bool" where
  "digit_groups [] = False"
| "digit_groups [c] = is_decimal c"
| "digit_groups (c # d # cs) =
     (is_decimal c \<and> (if d = CHR ''_'' then digit_groups cs else digit_groups (d # cs)))"

definition digits_value :: "string \<Rightarrow> int" where
  "digits_value s = foldl (\<lambda>acc c. if c = CHR ''_'' then acc else 10 * acc + (int (code c) - 48)) 0 s"

definition py_int :: "string \<Rightarrow> exn + int" where
  "py_int s =
     (let t = strip s;
          negative = (t \<noteq> [] \<and> hd t = CHR ''-'');
          body = (if t \<noteq> [] \<and> (hd t = CHR ''-'' \<or> hd t = CHR ''+'') then tl t else t)
      in if digit_groups body
         then Inr (if negative then - digits_value body else digits_value body)
         else Inl (ValueError Builtin))"

text \<open>The loop that groups the stripped lines into frames: a line of digits opens a
  new frame.\<close>

fun collect_frames :: "string list \<Rightarrow> string list list \<Rightarrow> string list \<Rightarrow> string list list" where
  "collect_frames [] frames current_frame =
     (if current_frame \<noteq> [] then frames @ [current_frame] else frames)"
| "collect_frames (line # rest) frames current_frame =
     (if isdigit (strip line)
      then (if current_frame \<noteq> []
            then collect_frames rest (frames @ [current_frame]) [strip line]
            else collect_frames rest frames [strip line])
      else collect_frames rest frames (current_frame @ [strip line]))"

text \<open>The output directory: file name to text. Opening in mode \<^verbatim>\<open>'a'\<close> creates the file.\<close>

type_synonym files = "string \<rightharpoonup> string"

definition append_file :: "files \<Rightarrow> string \<Rightarrow> string \<Rightarrow> files" where
  "append_file fs name text = fs(name \<mapsto> (case fs name of None \<Rightarrow> [] | Some old \<Rightarrow> old) @ text)"

text \<open>The text of an output file; a file never written has none.\<close>

definition file_text :: "files \<Rightarrow> string \<Rightarrow> string" where
  "file_text fs name = (case fs name of None \<Rightarrow> [] | Some t \<Rightarrow> t)"

text \<open>\<^verbatim>\<open>d.get(k, default)\<close>\<close>

definition dict_get :: "('k \<times> 'v) list \<Rightarrow> 'k \<Rightarrow> 'v \<Rightarrow> 'v" where
  "dict_get d k dflt = (case map_of d k of None \<Rightarrow> dflt | Some v \<Rightarrow> v)"

text \<open>The loop over the atom lines of a frame; \<^verbatim>\<open>atom_data[0]\<close> raises on a blank line.\<close>

fun atom_data_loop :: "string list \<Rightarrow> exn + (string list \<times> string list \<times> string list)" where
  "atom_data_loop [] = Inr ([], [], [])"
| "atom_data_loop (atom_line # rest) =
     (let atom_data = py_split atom_line
      in case atom_data of
           [] \<Rightarrow> Inl (IndexError Builtin)
         | sp # _ \<Rightarrow>
             (case atom_data_loop rest of
                Inl e \<Rightarrow> Inl e
              | Inr (species, positions, forces) \<Rightarrow>
                  Inr (sp # species,
                       slice atom_data 1 4 @ positions,
                       (if length atom_data > 4 then slice atom_data 4 7 else []) @ forces)))"

text \<open>The label files written for one frame.\<close>

fun write_labels :: "files \<Rightarrow> (string \<times> string) list \<Rightarrow> files" where
  "write_labels fs [] = fs"
| "write_labels fs ((key, value) # rest) =
     write_labels (append_file fs (key @ ''.txt'') (value @ [LF])) rest"

text \<open>The energy line and the box line written for one frame.\<close>

definition write_energy :: "files \<Rightarrow> (string \<times> string) list \<Rightarrow> files" where
  "write_energy fs labels = append_file fs ''energy.npy.txt'' (dict_get labels ''energy'' [] @ [LF])"

definition write_box :: "files \<Rightarrow> string option \<Rightarrow> files" where
  "write_box fs pbc =
     (case pbc of
        None \<Rightarrow> fs
      | Some p \<Rightarrow> if p \<noteq> [] \<and> p \<noteq> ''F F F'' then append_file fs ''box.npy.txt'' (p @ [LF]) else fs)"

text \<open>The body of the loop \<^verbatim>\<open>for i, frame in enumerate(frames)\<close>.\<close>

definition split_frame :: "files \<Rightarrow> string list \<Rightarrow> exn + files" where
  "split_frame fs frame =
     (case frame of
        [] \<Rightarrow> Inl (IndexError Builtin)
      | count_line # after_count \<Rightarrow>
          (case py_int count_line of
             Inl e \<Rightarrow> Inl e
           | Inr num_atoms \<Rightarrow>
               (case after_count of
                  [] \<Rightarrow> Inl (IndexError Builtin)
                | properties_line # atom_lines \<Rightarrow>
                    (case parse_properties properties_line of
                       Inl e \<Rightarrow> Inl e
                     | Inr properties \<Rightarrow>
                         (let labels = parse_labels properties_line;
                              pbc = parse_pbc properties_line;
                              fs1 = write_labels fs labels;
                              fs2 = write_energy fs1 labels;
                              fs3 = write_box fs2 pbc
                          in case atom_data_loop atom_lines of
                               Inl e \<Rightarrow> Inl e
                             | Inr (species, positions, forces) \<Rightarrow>
                                 (let fs4 = append_file fs3 ''real_atom_types.npy.txt''
                                              (join '' '' species @ [LF]);
                                      fs5 = append_file fs4 ''coord.npy.txt''
                                              (join '' '' positions @ [LF])
                                  in Inr (if forces \<noteq> []
                                          then append_file fs5 ''force.npy.txt''
                                                 (join '' '' forces @ [LF])
                                          else fs5)))))))"

fun split_frames :: "files \<Rightarrow> string list list \<Rightarrow> exn + files" where
  "split_frames fs [] = Inr fs"
| "split_frames fs (frame # rest) =
     (case split_frame fs frame of Inl e \<Rightarrow> Inl e | Inr fs' \<Rightarrow> split_frames fs' rest)"

text \<open>
  \<^verbatim>\<open>split_extxyz\<close>: every exception is caught, a message is printed and \<^verbatim>\<open>None\<close> is
  returned; otherwise the files of the output directory are archived and returned.
\<close>

definition split_text :: "string \<Rightarrow> exn + files" where
  "split_text text = split_frames Map.empty (collect_frames (file_lines text) [] [])"

definition split_extxyz :: "filesystem \<Rightarrow> string \<Rightarrow> message list \<times> files option" where
  "split_extxyz fs input_file =
     (case fs input_file of
        None \<Rightarrow> ([SplitFailed], None)
      | Some text \<Rightarrow>
          (case split_text text of
             Inl e \<Rightarrow> ([SplitFailed], None)
           | Inr out \<Rightarrow> ([], Some out)))"

section \<open>The operations on an explicit store\<close>

text \<open>
  The objects a conversion call works on, as one store: the six input collections, the
  lists the operations build (\<^verbatim>\<open>errors\<close>, \<^verbatim>\<open>content\<close>, \<^verbatim>\<open>frames\<close>) and the printed output. Every
  statement of the source that appends to a list or prints is an update of this store.
\<close>

record 'f store =
  in_atom_types :: rows
  in_coordinates :: rows
  in_energies :: rows
  in_forces :: "rows option"
  in_box :: "rows option"
  in_labels :: labels
  loc_errors :: "message list"
  loc_content :: "string list"
  loc_frames :: "'f frame_view list"
  out_printed :: "message list"

text \<open>The six input collections of a store.\<close>

definition inputs_of ::
  "'f store \<Rightarrow> rows \<times> rows \<times> rows \<times> rows option \<times> rows option \<times> labels" where
  "inputs_of s = (in_atom_types s, in_coordinates s, in_energies s, in_forces s, in_box s, in_labels s)"

text \<open>\<^verbatim>\<open>errors.append(m)\<close>, \<^verbatim>\<open>content.append(l)\<close> and \<^verbatim>\<open>print(m)\<close>.\<close>

definition append_error :: "message \<Rightarrow> 'f store \<Rightarrow> 'f store" where
  "append_error m s = s\<lparr>loc_errors := loc_errors s @ [m]\<rparr>"

definition append_content :: "string \<Rightarrow> 'f store \<Rightarrow> 'f store" where
  "append_content l s = s\<lparr>loc_content := loc_content s @ [l]\<rparr>"

definition print_line :: "message \<Rightarrow> 'f store \<Rightarrow> 'f store" where
  "print_line m s = s\<lparr>out_printed := out_printed s @ [m]\<rparr>"

text \<open>\<^verbatim>\<open>validate_data_consistency\<close> on the store; the result is the exception raised, if any.\<close>

fun label_checks_store :: "nat \<Rightarrow> labels \<Rightarrow> 'f store \<Rightarrow> exn option \<times> 'f store" where
  "label_checks_store num_frames [] s = (None, s)"
| "label_checks_store num_frames ((label_name, label_values) # rest) s =
     (case label_values of
        None \<Rightarrow> (Some (TypeError Builtin), s)
      | Some vs \<Rightarrow>
          label_checks_store num_frames rest
            (if length vs \<noteq> num_frames
             then append_error (LabelCountViolation label_name (length vs) num_frames) s
             else s))"

fun frame_checks_store :: "nat list \<Rightarrow> 'f store \<Rightarrow> exn option \<times> 'f store" where
  "frame_checks_store [] s = (None, s)"
| "frame_checks_store (i # is) s =
     (let num_atoms = length (in_atom_types s ! i);
          expected_coord_length = num_atoms * 3
      in if \<not> i < length (in_coordinates s) then (Some (IndexError Builtin), s)
         else
           let s1 = (if length (in_coordinates s ! i) \<noteq> expected_coord_length
                     then append_error (CoordLengthViolation i expected_coord_length
                                          (length (in_coordinates s ! i))) s
                     else s)
           in (case in_forces s1 of
                 None \<Rightarrow> frame_checks_store is s1
               | Some fs \<Rightarrow>
                   (let expected_force_length = num_atoms * 3
                    in if \<not> i < length fs then (Some (IndexError Builtin), s1)
                       else frame_checks_store is
                              (if length (fs ! i) \<noteq> expected_force_length
                               then append_error (ForceLengthViolation i expected_force_length
                                                    (length (fs ! i))) s1
                               else s1))))"

definition count_checks_store :: "'f store \<Rightarrow> 'f store" where
  "count_checks_store s =
     (let num_frames = length (in_atom_types s);
          s1 = (if length (in_coordinates s) \<noteq> num_frames
                then append_error (FrameCountViolation ''coordinates'' num_frames (length (in_coordinates s))) s
                else s);
          s2 = (if length (in_energies s1) \<noteq> num_frames
                then append_error (FrameCountViolation ''energies'' num_frames (length (in_energies s1))) s1
                else s1);
          s3 = (case in_forces s2 of
                  None \<Rightarrow> s2
                | Some fs \<Rightarrow> if length fs \<noteq> num_frames
                             then append_error (FrameCountViolation ''forces'' num_frames (length fs)) s2
                             else s2)
      in (case in_box s3 of
            None \<Rightarrow> s3
          | Some b \<Rightarrow> if length b \<noteq> num_frames
                      then append_error (FrameCountViolation ''box'' num_frames (length b)) s3
                      else s3))"

definition validate_store :: "'f store \<Rightarrow> exn option \<times> 'f store" where
  "validate_store s =
     (let num_frames = length (in_atom_types s);
          s1 = count_checks_store (s\<lparr>loc_errors := []\<rparr>)
      in case label_checks_store num_frames (in_labels s1) s1 of
           (Some e, s2) \<Rightarrow> (Some e, s2)
         | (None, s2) \<Rightarrow>
             (case frame_checks_store [0..<num_frames] s2 of
                (Some e, s3) \<Rightarrow> (Some e, s3)
              | (None, s3) \<Rightarrow>
                  if loc_errors s3 \<noteq> []
                  then (Some (ValueError ValidationFailed),
                        s3\<lparr>out_printed := out_printed s3 @ loc_errors s3\<rparr>)
                  else (None, s3)))"

text \<open>\<^verbatim>\<open>generate_xyz_content\<close> on the store.\<close>

fun xyz_atoms_store :: "nat \<Rightarrow> nat list \<Rightarrow> 'f store \<Rightarrow> exn option \<times> 'f store" where
  "xyz_atoms_store i [] s = (None, s)"
| "xyz_atoms_store i (j # js) s =
     (if \<not> j < length (in_atom_types s ! i) then (Some (IndexError (MissingAtomType i j)), s)
      else
        let atom = in_atom_types s ! i ! j;
            coord_start = j * 3;
            coord_end = (j + 1) * 3
        in if coord_end > length (in_coordinates s ! i)
           then (Some (IndexError (IncompleteCoordinates i j)), s)
           else
             let coord = slice (in_coordinates s ! i) coord_start coord_end
             in xyz_atoms_store i js (append_content (atom @ '' '' @ join '' '' coord) s))"

definition xyz_frame_store :: "nat \<Rightarrow> 'f store \<Rightarrow> exn option \<times> 'f store" where
  "xyz_frame_store i s =
     (let num_atoms = length (in_atom_types s ! i);
          s1 = print_line (ProcessingFrame i num_atoms) s
      in if \<not> i < length (in_energies s1) then (Some (IndexError (MissingEnergy i)), s1)
         else
           let s2 = append_content ([CHR '' '', CHR '' '', CHR '' '', CHR '' '', CHR '' '']
                                    @ show_nat num_atoms) s1
           in (case first_token (in_energies s2) i of
                 Inl e \<Rightarrow> (Some e, s2)
               | Inr energy \<Rightarrow>
                   (let s3 = append_content ('' i = '' @ show_nat i @ '', E = '' @ energy) s2
                    in if \<not> i < length (in_coordinates s3)
                       then (Some (IndexError (MissingCoordinates i)), s3)
                       else if length (in_coordinates s3 ! i) \<noteq> num_atoms * 3
                       then (Some (ValueError (CoordLengthViolation i (num_atoms * 3)
                                                 (length (in_coordinates s3 ! i)))), s3)
                       else xyz_atoms_store i [0..<num_atoms] s3)))"

fun xyz_frames_store :: "nat list \<Rightarrow> 'f store \<Rightarrow> exn option \<times> 'f store" where
  "xyz_frames_store [] s = (None, s)"
| "xyz_frames_store (i # is) s =
     (case xyz_frame_store i s of
        (Some e, s') \<Rightarrow> (Some e, s')
      | (None, s') \<Rightarrow> xyz_frames_store is s')"

definition generate_xyz_content_store :: "'f store \<Rightarrow> (exn + string) \<times> 'f store" where
  "generate_xyz_content_store s =
     (let s0 = s\<lparr>loc_content := []\<rparr>
      in case xyz_frames_store [0..<length (in_atom_types s0)] s0 of
           (Some e, s1) \<Rightarrow> (Inl e, s1)
         | (None, s1) \<Rightarrow> (Inr (join [LF] (loc_content s1)), s1))"

text \<open>\<^verbatim>\<open>generate_extxyz_content\<close> on the store; the label loop extends the local string
  \<^verbatim>\<open>line\<close> and prints the warnings.\<close>

fun label_tokens_store :: "labels \<Rightarrow> nat \<Rightarrow> string \<Rightarrow> 'f store \<Rightarrow> string \<times> 'f store" where
  "label_tokens_store [] i line s = (line, s)"
| "label_tokens_store ((label, values) # rest) i line s =
     (case values of
        None \<Rightarrow> label_tokens_store rest i line (print_line (MissingLabelWarning i label) s)
      | Some vs \<Rightarrow>
          if i < length vs
          then label_tokens_store rest i (line @ '' '' @ label @ ''='' @ render_label (vs ! i)) s
          else label_tokens_store rest i line (print_line (MissingLabelWarning i label) s))"

fun extxyz_atoms_store :: "nat \<Rightarrow> nat list \<Rightarrow> 'f store \<Rightarrow> exn option \<times> 'f store" where
  "extxyz_atoms_store i [] s = (None, s)"
| "extxyz_atoms_store i (j # js) s =
     (if \<not> j < length (in_atom_types s ! i) then (Some (IndexError (MissingAtomType i j)), s)
      else
        let atom = in_atom_types s ! i ! j;
            coord_start = j * 3;
            coord_end = (j + 1) * 3
        in if coord_end > length (in_coordinates s ! i)
           then (Some (IndexError (IncompleteCoordinates i j)), s)
           else
             let coord = slice (in_coordinates s ! i) coord_start coord_end;
                 line = atom @ '' '' @ join '' '' coord
             in (case in_forces s of
                   None \<Rightarrow> extxyz_atoms_store i js (append_content line s)
                 | Some fs \<Rightarrow>
                     (let force_start = j * 3;
                          force_end = (j + 1) * 3
                      in if force_end > length (fs ! i)
                         then (Some (IndexError (IncompleteForces i j)), s)
                         else
                           let force = slice (fs ! i) force_start force_end
                           in extxyz_atoms_store i js
                                (append_content (line @ '' '' @ join '' '' force) s))))"

definition extxyz_frame_store :: "string \<Rightarrow> nat \<Rightarrow> 'f store \<Rightarrow> exn option \<times> 'f store" where
  "extxyz_frame_store pbc_option i s =
     (let num_atoms = length (in_atom_types s ! i);
          s1 = print_line (ProcessingFrame i num_atoms) s
      in if \<not> i < length (in_energies s1) then (Some (IndexError (MissingEnergy i)), s1)
         else
           let s2 = append_content (show_nat num_atoms) s1;
               (line, s3) = label_tokens_store (in_labels s2) i (properties_token (in_forces s2)) s2
           in (case first_token (in_energies s3) i of
                 Inl e \<Rightarrow> (Some e, s3)
               | Inr energy \<Rightarrow>
                   (let s4 = append_content
                               (line @ '' energy='' @ energy @ '' pbc='' @ [DQ]
                                @ pbc_value pbc_option (in_box s3) i @ [DQ]) s3
                    in if \<not> i < length (in_coordinates s4) then (Some (IndexError Builtin), s4)
                       else if length (in_coordinates s4 ! i) \<noteq> num_atoms * 3
                       then (Some (ValueError (CoordLengthViolation i (num_atoms * 3)
                                                 (length (in_coordinates s4 ! i)))), s4)
                       else
                         (case force_row_check (in_forces s4) i num_atoms of
                            Inl e \<Rightarrow> (Some e, s4)
                          | Inr _ \<Rightarrow> extxyz_atoms_store i [0..<num_atoms] s4))))"

fun extxyz_frames_store :: "string \<Rightarrow> nat list \<Rightarrow> 'f store \<Rightarrow> exn option \<times> 'f store" where
  "extxyz_frames_store pbc_option [] s = (None, s)"
| "extxyz_frames_store pbc_option (i # is) s =
     (case extxyz_frame_store pbc_option i s of
        (Some e, s') \<Rightarrow> (Some e, s')
      | (None, s') \<Rightarrow> extxyz_frames_store pbc_option is s')"

definition generate_extxyz_content_store :: "string \<Rightarrow> 'f store \<Rightarrow> (exn + string) \<times> 'f store" where
  "generate_extxyz_content_store pbc_option s =
     (let s0 = s\<lparr>loc_content := []\<rparr>
      in case extxyz_frames_store pbc_option [0..<length (in_atom_types s0)] s0 of
           (Some e, s1) \<Rightarrow> (Inl e, s1)
         | (None, s1) \<Rightarrow> (Inr (join [LF] (loc_content s1)), s1))"

text \<open>The loop that builds \<^verbatim>\<open>frames\<close> for the visualization.\<close>

fun project_frames_store ::
  "(string \<Rightarrow> exn + 'f) \<Rightarrow> nat list \<Rightarrow> 'f store \<Rightarrow> exn option \<times> 'f store" where
  "project_frames_store to_float [] s = (None, s)"
| "project_frames_store to_float (i # is) s =
     (case project_frame to_float (in_atom_types s) (in_coordinates s) i of
        Inl e \<Rightarrow> (Some e, s)
      | Inr view \<Rightarrow> project_frames_store to_float is (s\<lparr>loc_frames := loc_frames s @ [view]\<rparr>))"

definition project_store :: "(string \<Rightarrow> exn + 'f) \<Rightarrow> 'f store \<Rightarrow> exn option \<times> 'f store" where
  "project_store to_float s =
     project_frames_store to_float [0..<length (in_atom_types s)] (s\<lparr>loc_frames := []\<rparr>)"

section \<open>Vocabulary for the round trip\<close>




definition one_line :: "string \<Rightarrow> bool" where
  "one_line s = (LF \<notin> set s \<and> CR \<notin> set s)"









section \<open>Facts about the text primitives\<close>

lemma split_acc_tokens:
  "\<forall>c\<in>set cur. \<not> is_space c \<Longrightarrow> t \<in> set (split_acc s cur)
     \<Longrightarrow> t \<noteq> [] \<and> (\<forall>c\<in>set t. \<not> is_space c)"
proof (induction s arbitrary: cur)
  case Nil
  then show ?case by (simp split: if_splits)
next
  case (Cons c cs)
  show ?case
  proof (cases "is_space c")
    case True
    show ?thesis
    proof (cases "cur = []")
      case True
      with \<open>is_space c\<close> Cons.prems(2) have "t \<in> set (split_acc cs [])" by simp
      then show ?thesis using Cons.IH [of "[]"] by simp
    next
      case False
      with \<open>is_space c\<close> Cons.prems(2) have "t = cur \<or> t \<in> set (split_acc cs [])" by simp
      then show ?thesis using Cons.IH [of "[]"] False Cons.prems(1) by auto
    qed
  next
    case False
    with Cons.prems(2) have "t \<in> set (split_acc cs (cur @ [c]))" by simp
    moreover from False Cons.prems(1) have "\<forall>x\<in>set (cur @ [c]). \<not> is_space x" by simp
    ultimately show ?thesis using Cons.IH [of "cur @ [c]"] by blast
  qed
qed

lemma split_acc_nonempty:
  "cur \<noteq> [] \<or> (\<exists>c\<in>set s. \<not> is_space c) \<Longrightarrow> split_acc s cur \<noteq> []"
proof (induction s arbitrary: cur)
  case Nil
  then show ?case by simp
next
  case (Cons c cs)
  show ?case
  proof (cases "is_space c")
    case True
    show ?thesis
    proof (cases "cur = []")
      case True
      with \<open>is_space c\<close> Cons.prems have "\<exists>c\<in>set cs. \<not> is_space c" by auto
      then show ?thesis using Cons.IH [of "[]"] True \<open>is_space c\<close> by simp
    next
      case False
      with \<open>is_space c\<close> show ?thesis by simp
    qed
  next
    case False
    then show ?thesis using Cons.IH [of "cur @ [c]"] by simp
  qed
qed

lemma strip_has_nonspace: "strip s \<noteq> [] \<Longrightarrow> \<exists>c\<in>set (strip s). \<not> is_space c"
proof -
  assume a: "strip s \<noteq> []"
  let ?r = "dropWhile is_space (rev (dropWhile is_space s))"
  from a have ne: "?r \<noteq> []" by (simp add: strip_def)
  then have "\<not> is_space (hd ?r)" by (rule hd_dropWhile)
  moreover from ne have "hd ?r \<in> set ?r" by simp
  ultimately show ?thesis unfolding strip_def by (metis set_rev)
qed

lemma py_split_tokens: "t \<in> set (py_split s) \<Longrightarrow> t \<noteq> [] \<and> (\<forall>c\<in>set t. \<not> is_space c)"
  unfolding py_split_def using split_acc_tokens [of "[]" t s] by simp

lemma py_split_strip_nonempty: "strip s \<noteq> [] \<Longrightarrow> py_split (strip s) \<noteq> []"
  unfolding py_split_def using split_acc_nonempty strip_has_nonspace by blast

lemma show_nat_small:
  "show_nat 0 = ''0''" "show_nat (Suc 0) = ''1''" "show_nat (Suc (Suc 0)) = ''2''"
  "show_nat (Suc (Suc (Suc 0))) = ''3''"
  by code_simp+

lemma upt_2: "[0..<2] = [0, Suc 0]"
  by (simp add: upt_rec)

lemma upt_3: "[0..<3] = [0, Suc 0, Suc (Suc 0)]"
  by (simp add: upt_rec)

section \<open>The column reader yields well-formed rows\<close>

lemma read_file_loop_rows:
  "row \<in> set (snd (read_file_loop p n ls)) \<Longrightarrow>
     row \<noteq> [] \<and> (\<forall>t\<in>set row. t \<noteq> [] \<and> (\<forall>c\<in>set t. \<not> is_space c))"
proof (induction ls arbitrary: n)
  case Nil
  then show ?case by simp
next
  case (Cons l ls)
  show ?case
  proof (cases "strip l = []")
    case True
    with Cons.prems have "row \<in> set (snd (read_file_loop p (Suc n) ls))"
      by (simp add: Let_def split: prod.splits)
    then show ?thesis by (rule Cons.IH)
  next
    case False
    with Cons.prems have "row = py_split (strip l) \<or> row \<in> set (snd (read_file_loop p (Suc n) ls))"
      by (simp add: Let_def split: prod.splits)
    then show ?thesis
    proof
      assume eq: "row = py_split (strip l)"
      from False have "row \<noteq> []" unfolding eq by (rule py_split_strip_nonempty)
      moreover have "\<forall>t\<in>set row. t \<noteq> [] \<and> (\<forall>c\<in>set t. \<not> is_space c)"
        unfolding eq using py_split_tokens by blast
      ultimately show ?thesis by simp
    next
      assume "row \<in> set (snd (read_file_loop p (Suc n) ls))"
      then show ?thesis by (rule Cons.IH)
    qed
  qed
qed

text \<open>
  C10. Every row returned by \<^verbatim>\<open>read_file\<close> for a readable file is a non-empty list of
  non-empty tokens without whitespace; therefore the access \<^verbatim>\<open>rows[i][0]\<close> made by both
  serializers on the energy rows succeeds for every valid frame index and yields the
  first token.
\<close>

theorem read_file_rows_wellformed:
  assumes "read_file fs file_path = (warnings, Inr data)"
  shows "(\<forall>row\<in>set data. row \<noteq> [] \<and> (\<forall>t\<in>set row. t \<noteq> [] \<and> (\<forall>c\<in>set t. \<not> is_space c)))
       \<and> (\<forall>i<length data. first_token data i = Inr (hd (data ! i)))"
proof -
  from assms obtain content
    where "read_file_loop file_path (Suc 0) (file_lines content) = (warnings, data)"
    by (auto simp: read_file_def split: option.splits prod.splits)
  then have r: "data = snd (read_file_loop file_path (Suc 0) (file_lines content))" by simp
  have wf: "\<forall>row\<in>set data. row \<noteq> [] \<and> (\<forall>t\<in>set row. t \<noteq> [] \<and> (\<forall>c\<in>set t. \<not> is_space c))"
    unfolding r using read_file_loop_rows by blast
  have "first_token data i = Inr (hd (data ! i))" if "i < length data" for i
  proof -
    from that wf have "data ! i \<noteq> []" by (metis nth_mem)
    with that show ?thesis by (cases "data ! i") (simp_all add: first_token_def)
  qed
  with wf show ?thesis by blast
qed

theorem read_file_rows_wellformed_witness:
  "read_file [''energy'' \<mapsto> ''-1.5 x'' @ [LF, LF] @ ''2.0''] ''energy''
     = ([BlankLineWarning ''energy'' 2], Inr [[''-1.5'', ''x''], [''2.0'']])
   \<and> first_token [[''-1.5'', ''x''], [''2.0'']] 1 = Inr ''2.0''"
proof -
  have h: "read_file [''energy'' \<mapsto> ''-1.5 x'' @ [LF, LF] @ ''2.0''] ''energy''
     = ([BlankLineWarning ''energy'' 2], Inr [[''-1.5'', ''x''], [''2.0'']])"
    by code_simp
  from read_file_rows_wellformed [OF h] have "first_token [[''-1.5'', ''x''], [''2.0'']] 1 = Inr ''2.0''"
    by simp
  with h show ?thesis by simp
qed

section \<open>Plain serializer on the two-frame scenario\<close>

text \<open>
  C7. For atom types \<^verbatim>\<open>[["H","O"],["H","H","O"]]\<close>, coordinate rows of 6 and 9 tokens and
  energy rows of one token each, \<^verbatim>\<open>generate_xyz_content\<close> returns exactly two frames in
  order: the atom-count line (2, then 3, after five spaces of padding), the comment line
  \<^verbatim>\<open> i = 0, E = e0\<close> respectively \<^verbatim>\<open> i = 1, E = e1\<close>, and one line per atom with the species and
  its three coordinates, in input order, joined by newlines.
\<close>

theorem generate_xyz_content_two_frames:
  "generate_xyz_content
     [[''H'', ''O''], [''H'', ''H'', ''O'']]
     [[x0, y0, z0, x1, y1, z1], [u0, v0, w0, u1, v1, w1, u2, v2, w2]]
     [[e0], [e1]]
   = ([ProcessingFrame 0 2, ProcessingFrame 1 3],
      Inr (join [LF]
        [''     2'',
         '' i = 0, E = '' @ e0,
         ''H '' @ x0 @ '' '' @ y0 @ '' '' @ z0,
         ''O '' @ x1 @ '' '' @ y1 @ '' '' @ z1,
         ''     3'',
         '' i = 1, E = '' @ e1,
         ''H '' @ u0 @ '' '' @ v0 @ '' '' @ w0,
         ''H '' @ u1 @ '' '' @ v1 @ '' '' @ w1,
         ''O '' @ u2 @ '' '' @ v2 @ '' '' @ w2]))"
  by (simp add: generate_xyz_content_def xyz_frame_def first_token_def slice_def upt_2 upt_3
      show_nat_small Let_def)

section \<open>Periodic-boundary token of the extended serializer\<close>



section \<open>The validator on short columns\<close>

text \<open>
  When the coordinate and force columns have at least as many rows as \<^verbatim>\<open>atom_types\<close> and no
  label sequence is \<^verbatim>\<open>None\<close>, the validator reaches its last statement: it prints every
  violation it collected, among them each frame-count violation and the violation of each
  frame with a wrong coordinate count, and raises \<^verbatim>\<open>ValueError\<close> exactly when there is one.
\<close>

lemma label_checks_present:
  "\<forall>(name, v)\<in>set labels. v \<noteq> None \<Longrightarrow> \<exists>errs. label_checks n labels = Inr errs"
proof (induction labels)
  case Nil
  show ?case by simp
next
  case (Cons entry labels)
  obtain name vals where entry: "entry = (name, vals)" by (cases entry)
  from Cons.prems obtain vs where vs: "vals = Some vs" unfolding entry by auto
  from Cons.prems have "\<forall>(name, v)\<in>set labels. v \<noteq> None" by simp
  from Cons.IH [OF this] obtain errs where "label_checks n labels = Inr errs" by blast
  with vs show ?case unfolding entry by simp
qed

lemma frame_checks_guarded:
  assumes "\<forall>i\<in>set is. i < length coordinates"
    and "\<forall>fs. forces = Some fs \<longrightarrow> (\<forall>i\<in>set is. i < length fs)"
  shows "\<exists>errs. frame_checks atom_types coordinates forces is = Inr errs
           \<and> (\<forall>i\<in>set is. length (coordinates ! i) \<noteq> length (atom_types ! i) * 3
                 \<longrightarrow> CoordLengthViolation i (length (atom_types ! i) * 3) (length (coordinates ! i))
                       \<in> set errs)"
  using assms
proof (induction "is")
  case Nil
  show ?case by simp
next
  case (Cons k ks)
  let ?v = "CoordLengthViolation k (length (atom_types ! k) * 3) (length (coordinates ! k))"
  from Cons.prems have k: "k < length coordinates" by simp
  from Cons.prems have "\<forall>i\<in>set ks. i < length coordinates"
    and "\<forall>fs. forces = Some fs \<longrightarrow> (\<forall>i\<in>set ks. i < length fs)" by simp_all
  from Cons.IH [OF this] obtain errs where r: "frame_checks atom_types coordinates forces ks = Inr errs"
    and m: "\<forall>i\<in>set ks. length (coordinates ! i) \<noteq> length (atom_types ! i) * 3
                 \<longrightarrow> CoordLengthViolation i (length (atom_types ! i) * 3) (length (coordinates ! i))
                       \<in> set errs"
    by blast
  let ?ce = "if length (coordinates ! k) \<noteq> length (atom_types ! k) * 3 then [?v] else []"
  obtain fe where step: "frame_checks atom_types coordinates forces (k # ks) = Inr (?ce @ fe @ errs)"
  proof (cases forces)
    case None
    with k r have "frame_checks atom_types coordinates forces (k # ks) = Inr (?ce @ [] @ errs)"
      by (simp add: Let_def)
    then show ?thesis by (rule that)
  next
    case (Some fs)
    with Cons.prems(2) have "k < length fs" by simp
    with k r Some have "frame_checks atom_types coordinates forces (k # ks)
        = Inr (?ce @ (if length (fs ! k) \<noteq> length (atom_types ! k) * 3
                      then [ForceLengthViolation k (length (atom_types ! k) * 3) (length (fs ! k))]
                      else []) @ errs)"
      by (simp add: Let_def)
    then show ?thesis by (rule that)
  qed
  show ?case
  proof (intro exI [of _ "?ce @ fe @ errs"] conjI ballI impI)
    show "frame_checks atom_types coordinates forces (k # ks) = Inr (?ce @ fe @ errs)" by (rule step)
  next
    fix i assume i: "i \<in> set (k # ks)"
      and bad: "length (coordinates ! i) \<noteq> length (atom_types ! i) * 3"
    show "CoordLengthViolation i (length (atom_types ! i) * 3) (length (coordinates ! i))
            \<in> set (?ce @ fe @ errs)"
    proof (cases "i = k")
      case True
      with bad show ?thesis by simp
    next
      case False
      with i have "i \<in> set ks" by simp
      with m bad show ?thesis by simp
    qed
  qed
qed

lemma validate_reports_every_violation:
  assumes "length atom_types \<le> length coordinates"
    and "\<forall>fs. forces = Some fs \<longrightarrow> length atom_types \<le> length fs"
    and "\<forall>(name, v)\<in>set labels. v \<noteq> None"
  shows "\<exists>errors. validate_data_consistency atom_types coordinates energies forces box labels
                     = (errors, if errors = [] then Inr () else Inl (ValueError ValidationFailed))
           \<and> set (count_checks atom_types coordinates energies forces box) \<subseteq> set errors
           \<and> (\<forall>i<length atom_types. length (coordinates ! i) \<noteq> length (atom_types ! i) * 3
                 \<longrightarrow> CoordLengthViolation i (length (atom_types ! i) * 3) (length (coordinates ! i))
                       \<in> set errors)"
proof -
  let ?n = "length atom_types"
  let ?e1 = "count_checks atom_types coordinates energies forces box"
  from label_checks_present [OF assms(3)] obtain e2 where l: "label_checks ?n labels = Inr e2" by blast
  have "\<forall>i\<in>set [0..<?n]. i < length coordinates" using assms(1) by simp
  moreover have "\<forall>fs. forces = Some fs \<longrightarrow> (\<forall>i\<in>set [0..<?n]. i < length fs)"
    using assms(2) by auto
  ultimately obtain e3 where f: "frame_checks atom_types coordinates forces [0..<?n] = Inr e3"
    and m: "\<forall>i\<in>set [0..<?n]. length (coordinates ! i) \<noteq> length (atom_types ! i) * 3
                 \<longrightarrow> CoordLengthViolation i (length (atom_types ! i) * 3) (length (coordinates ! i))
                       \<in> set e3"
    using frame_checks_guarded [of "[0..<?n]" coordinates forces atom_types] by blast
  show ?thesis
  proof (intro exI [of _ "?e1 @ e2 @ e3"] conjI allI impI)
    show "validate_data_consistency atom_types coordinates energies forces box labels
            = (?e1 @ e2 @ e3, if ?e1 @ e2 @ e3 = [] then Inr () else Inl (ValueError ValidationFailed))"
      using l f by (simp add: validate_data_consistency_def Let_def)
  next
    show "set ?e1 \<subseteq> set (?e1 @ e2 @ e3)" by simp
  next
    fix i assume "i < ?n" and "length (coordinates ! i) \<noteq> length (atom_types ! i) * 3"
    with m show "CoordLengthViolation i (length (atom_types ! i) * 3) (length (coordinates ! i))
                   \<in> set (?e1 @ e2 @ e3)"
      by simp
  qed
qed

text \<open>
  C2. Validator completeness fails on the code: with two frames of atom types and one
  coordinate row, the frame loop reads \<^verbatim>\<open>coordinates[1]\<close> and raises \<^verbatim>\<open>IndexError\<close>; the
  frame-count violation already collected is never printed and no \<^verbatim>\<open>ValueError\<close> is raised.
\<close>

theorem validate_short_coordinates:
  "validate_data_consistency [[''H''], [''H'']] [[''0'', ''0'', ''0'']] [[''1''], [''2'']] None None []
     = ([], Inl (IndexError Builtin))"
  by (simp add: validate_data_consistency_def count_checks_def upt_2 Let_def)

text \<open>
  C3. The per-frame length check fails on the code for the same reason: frame 0 has one
  coordinate for one atom, but the missing second coordinate row makes the loop raise
  \<^verbatim>\<open>IndexError\<close> before the violation naming frame 0 is printed.
\<close>

theorem validate_bad_frame_short_coordinates:
  "validate_data_consistency [[''H''], [''H'']] [[''0'']] [[''1''], [''2'']] None None []
     = ([], Inl (IndexError Builtin))"
  by (simp add: validate_data_consistency_def count_checks_def upt_2 Let_def)

section \<open>Label rendering in the metadata line\<close>

lemma label_tokens_concat:
  "label_tokens labels i
     = (concat (map (\<lambda>e. fst (label_token i e)) labels),
        concat (map (\<lambda>e. snd (label_token i e)) labels))"
  by (induction labels) (simp_all add: Let_def split: prod.splits)

lemma extxyz_frame_emitted:
  assumes "snd (extxyz_frame atom_types coordinates energies forces box labels pbc_option i) = Inr frame_lines"
  shows "frame_lines ! 1 = metadata_line forces labels (hd (energies ! i)) box pbc_option i"
    and "fst (extxyz_frame atom_types coordinates energies forces box labels pbc_option i)
           = ProcessingFrame i (length (atom_types ! i)) # fst (label_tokens labels i)"
proof -
  from assms have ie: "i < length energies"
    by (auto simp: extxyz_frame_def Let_def split: if_splits)
  with assms obtain energy where ft: "first_token energies i = Inr energy"
    by (cases "first_token energies i") (auto simp: extxyz_frame_def Let_def split: if_splits)
  with ie have e: "energy = hd (energies ! i)"
    by (cases "energies ! i") (auto simp: first_token_def)
  from assms ie ft show "frame_lines ! 1 = metadata_line forces labels (hd (energies ! i)) box pbc_option i"
    unfolding e by (auto simp: extxyz_frame_def Let_def split: if_splits sum.splits)
  from assms ie ft show "fst (extxyz_frame atom_types coordinates energies forces box labels pbc_option i)
           = ProcessingFrame i (length (atom_types ! i)) # fst (label_tokens labels i)"
    by (auto simp: extxyz_frame_def Let_def split: if_splits sum.splits)
qed

lemma extxyz_frames_emitted:
  assumes "snd (extxyz_frames atom_types coordinates energies forces box labels pbc_option is) = Inr content"
  shows "\<exists>L. content = concat (map L is)
           \<and> (\<forall>i\<in>set is. snd (extxyz_frame atom_types coordinates energies forces box labels pbc_option i)
                               = Inr (L i))
           \<and> fst (extxyz_frames atom_types coordinates energies forces box labels pbc_option is)
               = concat (map (\<lambda>i. fst (extxyz_frame atom_types coordinates energies forces box labels
                                           pbc_option i)) is)"
  using assms
proof (induction "is" arbitrary: content)
  case Nil
  then show ?case by simp
next
  case (Cons k ks)
  let ?F = "extxyz_frame atom_types coordinates energies forces box labels pbc_option"
  let ?R = "extxyz_frames atom_types coordinates energies forces box labels pbc_option"
  obtain p1 r1 where F: "?F k = (p1, r1)" by (cases "?F k")
  obtain p2 r2 where R: "?R ks = (p2, r2)" by (cases "?R ks")
  from Cons.prems F R obtain l1 c2 where r1: "r1 = Inr l1" and r2: "r2 = Inr c2"
    and content: "content = l1 @ c2"
    by (cases r1; cases r2) auto
  from Cons.IH [of c2] R r2 obtain L where L: "c2 = concat (map L ks)"
    and each: "\<forall>i\<in>set ks. snd (?F i) = Inr (L i)"
    and pr: "p2 = concat (map (\<lambda>i. fst (?F i)) ks)"
    by auto
  let ?L = "\<lambda>i. if i = k then l1 else L i"
  have same: "map ?L ks = map L ks"
  proof (rule map_cong [OF refl])
    fix i assume i: "i \<in> set ks"
    show "?L i = L i"
    proof (cases "i = k")
      case True
      from each i have "snd (?F i) = Inr (L i)" by simp
      with F r1 True show ?thesis by simp
    next
      case False
      then show ?thesis by simp
    qed
  qed
  have "concat (map ?L ks) = concat (map L ks)" by (simp only: same)
  with content L have c: "content = concat (map ?L (k # ks))" by simp
  have e: "\<forall>i\<in>set (k # ks). snd (?F i) = Inr (?L i)" using each F r1 by auto
  have p: "fst (?R (k # ks)) = concat (map (\<lambda>i. fst (?F i)) (k # ks))"
    using F R r1 r2 pr by simp
  from c e p show ?case by blast
qed

text \<open>
  C5, as stated, fails: a label whose sequence has no value for frame 0 is not rendered as
  \<^verbatim>\<open>None\<close>; the metadata line carries no token for it and only the warning is printed.
\<close>

theorem absent_label_value_not_rendered:
  "extxyz_frame [[''H'']] [[''0'', ''0'', ''0'']] [[''1.5'']] None None [(''tag'', Some [])] ''fff'' 0
     = ([ProcessingFrame 0 1, MissingLabelWarning 0 ''tag''],
        Inr [''1'', ''Properties=species:S:1:pos:R:3 energy=1.5 pbc='' @ [DQ] @ ''F F F'' @ [DQ],
             ''H 0 0 0''])"
  by code_simp

text \<open>
  C5, amended. For a label, an empty string at frame \<open>i\<close> gives the token
  \<^verbatim>\<open> <name>=None\<close>; a non-empty string gives \<^verbatim>\<open> <name>=<value>\<close> with every space of the value
  replaced by an underscore; a value absent for frame \<open>i\<close> (no sequence, or a sequence that
  is too short) gives no token at all and one warning naming the frame and the label.
  Whenever the extended serializer emits frame \<open>i\<close>, the second line of that frame is the
  properties token, then these tokens of the declared labels in order, then the energy and
  pbc tokens, and what the serializer prints for the frame is its progress line followed by
  these warnings; and whenever \<^verbatim>\<open>generate_extxyz_content\<close> returns, its text is the lines of
  the frames so emitted, joined by newlines, and its printed output is that of the frames
  in order.
\<close>

theorem label_rendering:
  "(seq = Some vs \<longrightarrow> i < length vs \<longrightarrow> vs ! i = LStr [] \<longrightarrow>
       label_token i (label, seq) = ([], '' '' @ label @ ''=None''))
   \<and> (seq = Some vs \<longrightarrow> i < length vs \<longrightarrow> vs ! i = LStr s \<longrightarrow> s \<noteq> [] \<longrightarrow>
       label_token i (label, seq)
         = ([], '' '' @ label @ ''='' @ map (\<lambda>c. if c = CHR '' '' then CHR ''_'' else c) s))
   \<and> (seq = None \<or> (seq = Some vs \<and> \<not> i < length vs) \<longrightarrow>
       label_token i (label, seq) = ([MissingLabelWarning i label], []))
   \<and> metadata_line forces labels energy box pbc_option i
       = properties_token forces @ concat (map (\<lambda>e. snd (label_token i e)) labels)
         @ '' energy='' @ energy @ '' pbc='' @ [DQ] @ pbc_value pbc_option box i @ [DQ]
   \<and> fst (label_tokens labels i) = concat (map (\<lambda>e. fst (label_token i e)) labels)
   \<and> (snd (extxyz_frame atom_types coordinates energies forces box labels pbc_option i) = Inr frame_lines
        \<longrightarrow> frame_lines ! 1
              = properties_token forces @ concat (map (\<lambda>e. snd (label_token i e)) labels)
                @ '' energy='' @ hd (energies ! i) @ '' pbc='' @ [DQ] @ pbc_value pbc_option box i @ [DQ]
            \<and> fst (extxyz_frame atom_types coordinates energies forces box labels pbc_option i)
                = ProcessingFrame i (length (atom_types ! i))
                  # concat (map (\<lambda>e. fst (label_token i e)) labels))
   \<and> (snd (generate_extxyz_content atom_types coordinates energies forces box labels pbc_option)
         = Inr content
        \<longrightarrow> (\<exists>L. content = join [LF] (concat (map L [0..<length atom_types]))
                 \<and> (\<forall>k<length atom_types.
                       snd (extxyz_frame atom_types coordinates energies forces box labels pbc_option k)
                         = Inr (L k))
                 \<and> fst (generate_extxyz_content atom_types coordinates energies forces box labels
                           pbc_option)
                     = concat (map (\<lambda>k. fst (extxyz_frame atom_types coordinates energies forces box
                                                 labels pbc_option k)) [0..<length atom_types])))"
proof -
  have a: "(seq = Some vs \<longrightarrow> i < length vs \<longrightarrow> vs ! i = LStr [] \<longrightarrow>
       label_token i (label, seq) = ([], '' '' @ label @ ''=None''))
   \<and> (seq = Some vs \<longrightarrow> i < length vs \<longrightarrow> vs ! i = LStr s \<longrightarrow> s \<noteq> [] \<longrightarrow>
       label_token i (label, seq)
         = ([], '' '' @ label @ ''='' @ map (\<lambda>c. if c = CHR '' '' then CHR ''_'' else c) s))
   \<and> (seq = None \<or> (seq = Some vs \<and> \<not> i < length vs) \<longrightarrow>
       label_token i (label, seq) = ([MissingLabelWarning i label], []))"
    by (auto simp: label_token_def render_label_def replace_space_def)
  have b: "metadata_line forces labels energy box pbc_option i
       = properties_token forces @ concat (map (\<lambda>e. snd (label_token i e)) labels)
         @ '' energy='' @ energy @ '' pbc='' @ [DQ] @ pbc_value pbc_option box i @ [DQ]" for energy
    by (simp add: metadata_line_def label_tokens_concat)
  have c: "fst (label_tokens labels i) = concat (map (\<lambda>e. fst (label_token i e)) labels)"
    by (simp add: label_tokens_concat)
  have d: "frame_lines ! 1
              = properties_token forces @ concat (map (\<lambda>e. snd (label_token i e)) labels)
                @ '' energy='' @ hd (energies ! i) @ '' pbc='' @ [DQ] @ pbc_value pbc_option box i @ [DQ]
            \<and> fst (extxyz_frame atom_types coordinates energies forces box labels pbc_option i)
                = ProcessingFrame i (length (atom_types ! i))
                  # concat (map (\<lambda>e. fst (label_token i e)) labels)"
    if "snd (extxyz_frame atom_types coordinates energies forces box labels pbc_option i) = Inr frame_lines"
    using extxyz_frame_emitted [OF that] b c by simp
  have e: "\<exists>L. content = join [LF] (concat (map L [0..<length atom_types]))
                 \<and> (\<forall>k<length atom_types.
                       snd (extxyz_frame atom_types coordinates energies forces box labels pbc_option k)
                         = Inr (L k))
                 \<and> fst (generate_extxyz_content atom_types coordinates energies forces box labels
                           pbc_option)
                     = concat (map (\<lambda>k. fst (extxyz_frame atom_types coordinates energies forces box
                                                 labels pbc_option k)) [0..<length atom_types])"
    if g: "snd (generate_extxyz_content atom_types coordinates energies forces box labels pbc_option)
             = Inr content"
  proof -
    let ?R = "extxyz_frames atom_types coordinates energies forces box labels pbc_option
                [0..<length atom_types]"
    obtain p r where R: "?R = (p, r)" by (cases ?R)
    with g obtain ls where r: "r = Inr ls" and content: "content = join [LF] ls"
      by (cases r) (auto simp: generate_extxyz_content_def)
    from R r have "snd ?R = Inr ls" by simp
    from extxyz_frames_emitted [OF this] obtain L where "ls = concat (map L [0..<length atom_types])"
      and "\<forall>k\<in>set [0..<length atom_types].
             snd (extxyz_frame atom_types coordinates energies forces box labels pbc_option k) = Inr (L k)"
      and "fst ?R = concat (map (\<lambda>k. fst (extxyz_frame atom_types coordinates energies forces box
                                                 labels pbc_option k)) [0..<length atom_types])"
      by blast
    moreover have "fst (generate_extxyz_content atom_types coordinates energies forces box labels pbc_option)
                     = fst ?R"
      using R r by (simp add: generate_extxyz_content_def)
    ultimately show ?thesis using content by (intro exI [of _ L]) simp
  qed
  from a b c d e show ?thesis by blast
qed

theorem label_rendering_witness:
  "label_token 0 (''tag'', Some [LStr ''a b c'', LStr []]) = ([], '' tag=a_b_c'')
   \<and> label_token 1 (''tag'', Some [LStr ''a b c'', LStr []]) = ([], '' tag=None'')
   \<and> label_token 2 (''tag'', Some [LStr ''a b c'', LStr []]) = ([MissingLabelWarning 2 ''tag''], [])
   \<and> extxyz_frame [[''H'']] [[''0'', ''0'', ''0'']] [[''1.5'']] None None
         [(''tag'', Some [LStr ''a b c'']), (''q'', None)] ''fff'' 0
       = ([ProcessingFrame 0 1, MissingLabelWarning 0 ''q''],
          Inr [''1'',
               ''Properties=species:S:1:pos:R:3 tag=a_b_c energy=1.5 pbc='' @ [DQ] @ ''F F F'' @ [DQ],
               ''H 0 0 0''])
   \<and> generate_extxyz_content [[''H'']] [[''0'', ''0'', ''0'']] [[''1.5'']] None None
         [(''tag'', Some [LStr ''a b c'']), (''q'', None)] ''fff''
       = ([ProcessingFrame 0 1, MissingLabelWarning 0 ''q''],
          Inr (''1'' @ [LF]
               @ ''Properties=species:S:1:pos:R:3 tag=a_b_c energy=1.5 pbc='' @ [DQ] @ ''F F F'' @ [DQ]
               @ [LF] @ ''H 0 0 0''))
   \<and> concat (map (\<lambda>e. fst (label_token 0 e)) [(''tag'', Some [LStr ''a b c'']), (''q'', None)])
       = [MissingLabelWarning 0 ''q'']"
proof -
  let ?labels = "[(''tag'', Some [LStr ''a b c'']), (''q'', None)]"
  let ?lines = "[''1'',
               ''Properties=species:S:1:pos:R:3 tag=a_b_c energy=1.5 pbc='' @ [DQ] @ ''F F F'' @ [DQ],
               ''H 0 0 0'']"
  let ?content = "''1'' @ [LF]
               @ ''Properties=species:S:1:pos:R:3 tag=a_b_c energy=1.5 pbc='' @ [DQ] @ ''F F F'' @ [DQ]
               @ [LF] @ ''H 0 0 0''"
  have f: "extxyz_frame [[''H'']] [[''0'', ''0'', ''0'']] [[''1.5'']] None None ?labels ''fff'' 0
             = ([ProcessingFrame 0 1, MissingLabelWarning 0 ''q''], Inr ?lines)"
    by code_simp
  have g: "generate_extxyz_content [[''H'']] [[''0'', ''0'', ''0'']] [[''1.5'']] None None ?labels ''fff''
             = ([ProcessingFrame 0 1, MissingLabelWarning 0 ''q''], Inr ?content)"
    by code_simp
  note t = label_rendering [where seq = "Some [LStr ''a b c'', LStr []]" and vs = "[LStr ''a b c'', LStr []]"
      and label = "''tag''" and forces = None and labels = ?labels and box = None
      and pbc_option = "''fff''" and atom_types = "[[''H'']]" and coordinates = "[[''0'', ''0'', ''0'']]"
      and energies = "[[''1.5'']]" and frame_lines = ?lines and content = ?content]
  from t [where i = 0 and s = "''a b c''"]
  have a: "label_token 0 (''tag'', Some [LStr ''a b c'', LStr []]) = ([], '' tag=a_b_c'')" by simp
  from t [where i = 1 and s = "[]"]
  have b: "label_token 1 (''tag'', Some [LStr ''a b c'', LStr []]) = ([], '' tag=None'')" by simp
  from t [where i = 2 and s = "[]"]
  have c: "label_token 2 (''tag'', Some [LStr ''a b c'', LStr []]) = ([MissingLabelWarning 2 ''tag''], [])"
    by simp
  from f have "snd (extxyz_frame [[''H'']] [[''0'', ''0'', ''0'']] [[''1.5'']] None None ?labels ''fff'' 0)
                 = Inr ?lines" by simp
  with t [where i = 0 and s = "''a b c''"] f
  have d: "concat (map (\<lambda>e. fst (label_token 0 e)) ?labels) = [MissingLabelWarning 0 ''q'']" by simp
  from a b c d f g show ?thesis by simp
qed

section \<open>An absent label file\<close>

text \<open>
  C4. The label reader returns \<^verbatim>\<open>None\<close> with a warning for a path that does not exist,
  but the conversion does not proceed: the validator takes \<^verbatim>\<open>len\<close> of that \<^verbatim>\<open>None\<close> and
  \<^verbatim>\<open>generate_extxyz\<close> ends with an uncaught \<^verbatim>\<open>TypeError\<close>.
\<close>

theorem absent_label_file_aborts:
  "read_label_file [''a'' \<mapsto> ''H'', ''c'' \<mapsto> ''0 0 0'', ''e'' \<mapsto> ''1''] ''/x/tag.txt''
     = ([NotExistWarning ''/x/tag.txt''], None)
   \<and> generate_extxyz (\<lambda>s. Inr s) [''a'' \<mapsto> ''H'', ''c'' \<mapsto> ''0 0 0'', ''e'' \<mapsto> ''1'']
       ''a'' ''c'' ''e'' None None (Some [''/x/tag.txt'']) ''fff''
     = ([NotExistWarning ''/x/tag.txt''], Inl (TypeError Builtin))"
  by code_simp

section \<open>Energy and box streams of the parser\<close>

lemma file_text_append:
  "file_text (append_file fs name t) name' = (if name' = name then file_text fs name @ t else file_text fs name')"
  by (simp add: file_text_def append_file_def)

lemma match_label_key:
  assumes "match_label s = Some (key, value, after)"
  shows "key \<noteq> [] \<and> (\<forall>c\<in>set key. is_word c)"
proof -
  from assms have k: "key = takeWhile is_word s" and ne: "key \<noteq> []"
    by (auto simp: match_label_def Let_def split: if_splits)
  have "\<forall>c\<in>set key. is_word c" unfolding k by (metis set_takeWhileD)
  with ne show ?thesis by simp
qed

lemma findall_labels_keys:
  "(k, v) \<in> set (findall_labels s) \<Longrightarrow> k \<noteq> [] \<and> (\<forall>c\<in>set k. is_word c)"
proof (induction s rule: findall_labels.induct)
  case 1
  then show ?case by (simp add: findall_labels.simps)
next
  case (2 c cs)
  show ?case
  proof (cases "match_label (c # cs)")
    case None
    with "2.prems" have "(k, v) \<in> set (findall_labels cs)" by (simp add: findall_labels.simps)
    with None show ?thesis by (rule "2.IH"(1))
  next
    case (Some m)
    obtain key val after where m: "m = (key, val, after)" by (cases m)
    from "2.prems" Some have "(k, v) = (key, val) \<or> (k, v) \<in> set (findall_labels after)"
      unfolding m by (simp add: findall_labels.simps)
    then show ?thesis
    proof
      assume "(k, v) = (key, val)"
      with Some show ?thesis unfolding m using match_label_key by blast
    next
      assume "(k, v) \<in> set (findall_labels after)"
      then show ?thesis using "2.IH"(2) [OF Some [unfolded m] refl refl] by simp
    qed
  qed
qed

lemma dict_set_keys: "fst ` set (dict_set d k v) = insert k (fst ` set d)"
proof (induction d)
  case Nil
  show ?case by simp
next
  case (Cons e d)
  obtain k' v' where e: "e = (k', v')" by (cases e)
  show ?case unfolding e using Cons.IH by (cases "k' = k") auto
qed

lemma add_label_keys: "fst ` set (add_label d m) \<subseteq> insert (fst m) (fst ` set d)"
  by (cases m) (auto simp: add_label_def dict_set_keys)

lemma foldl_add_label_keys:
  "fst ` set (foldl add_label d ms) \<subseteq> fst ` set d \<union> fst ` set ms"
proof (induction ms arbitrary: d)
  case Nil
  show ?case by simp
next
  case (Cons m ms)
  have "fst ` set (foldl add_label (add_label d m) ms) \<subseteq> fst ` set (add_label d m) \<union> fst ` set ms"
    by (rule Cons.IH)
  also have "\<dots> \<subseteq> insert (fst m) (fst ` set d) \<union> fst ` set ms"
    using add_label_keys [of d m] by blast
  finally show ?case by simp
qed

lemma parse_labels_keys:
  assumes "(k, v) \<in> set (parse_labels line)"
  shows "k \<noteq> [] \<and> (\<forall>c\<in>set k. is_word c)"
proof -
  from assms have "k \<in> fst ` set (parse_labels line)" by (metis fst_conv image_eqI)
  then have "k \<in> fst ` set (findall_labels line)"
    unfolding parse_labels_def using foldl_add_label_keys [of "[]" "findall_labels line"] by auto
  then obtain v' where "(k, v') \<in> set (findall_labels line)" by auto
  then show ?thesis by (rule findall_labels_keys)
qed

lemma not_word_dot: "\<not> is_word (CHR ''.'')"
  by code_simp

lemma word_key_file:
  assumes "\<forall>c\<in>set k. is_word c" and "CHR ''.'' \<in> set stem"
  shows "k @ ''.txt'' \<noteq> stem @ ''.txt''"
proof
  assume "k @ ''.txt'' = stem @ ''.txt''"
  then have "k = stem" by simp
  with assms show False using not_word_dot by blast
qed

lemma write_labels_other:
  "(\<And>k v. (k, v) \<in> set labels \<Longrightarrow> k @ ''.txt'' \<noteq> name) \<Longrightarrow> write_labels fs labels name = fs name"
proof (induction labels arbitrary: fs)
  case Nil
  show ?case by simp
next
  case (Cons e labels)
  obtain k v where e: "e = (k, v)" by (cases e)
  have ne: "k @ ''.txt'' \<noteq> name" by (rule Cons.prems [of k v]) (simp add: e)
  have "write_labels (append_file fs (k @ ''.txt'') (v @ [LF])) labels name
          = append_file fs (k @ ''.txt'') (v @ [LF]) name"
  proof (rule Cons.IH)
    fix k' v' assume "(k', v') \<in> set labels"
    then show "k' @ ''.txt'' \<noteq> name" using Cons.prems [of k' v'] by simp
  qed
  also from ne have "\<dots> = fs name" by (simp add: append_file_def)
  finally show ?case unfolding e by simp
qed

lemma write_parsed_labels_other:
  assumes "CHR ''.'' \<in> set stem"
  shows "write_labels fs (parse_labels line) (stem @ ''.txt'') = fs (stem @ ''.txt'')"
proof (rule write_labels_other)
  fix k v assume "(k, v) \<in> set (parse_labels line)"
  then have "\<forall>c\<in>set k. is_word c" using parse_labels_keys by blast
  with assms show "k @ ''.txt'' \<noteq> stem @ ''.txt''" using word_key_file by blast
qed

lemma write_labels_energy: "write_labels fs (parse_labels line) ''energy.npy.txt'' = fs ''energy.npy.txt''"
  using write_parsed_labels_other [of "''energy.npy''" fs line] by simp

lemma write_labels_box: "write_labels fs (parse_labels line) ''box.npy.txt'' = fs ''box.npy.txt''"
  using write_parsed_labels_other [of "''box.npy''" fs line] by simp

lemma parse_pbc_nonempty: "parse_pbc s = Some p \<Longrightarrow> p \<noteq> []"
  by (induction s) (auto simp: Let_def split: if_splits)

lemma split_frame_energy_box:
  assumes "split_frame fs frame = Inr fs'"
  shows "file_text fs' ''energy.npy.txt''
           = file_text fs ''energy.npy.txt'' @ dict_get (parse_labels (frame ! 1)) ''energy'' [] @ [LF]"
    and "file_text fs' ''box.npy.txt''
           = file_text fs ''box.npy.txt''
             @ (case parse_pbc (frame ! 1) of
                  None \<Rightarrow> []
                | Some p \<Rightarrow> if p \<noteq> ''F F F'' then p @ [LF] else [])"
proof -
  from assms obtain count_line properties_line atom_lines species positions forces
    where fr: "frame = count_line # properties_line # atom_lines"
      and fs': "fs' = (let fs3 = write_box (write_energy (write_labels fs (parse_labels properties_line))
                                         (parse_labels properties_line)) (parse_pbc properties_line);
                        fs5 = append_file (append_file fs3 ''real_atom_types.npy.txt'' (join '' '' species @ [LF]))
                               ''coord.npy.txt'' (join '' '' positions @ [LF])
                    in if forces \<noteq> [] then append_file fs5 ''force.npy.txt'' (join '' '' forces @ [LF]) else fs5)"
    by (auto simp: split_frame_def Let_def split: list.splits sum.splits prod.splits)
  have l: "frame ! 1 = properties_line" unfolding fr by simp
  let ?L = "parse_labels properties_line"
  have e1: "file_text (write_labels fs ?L) ''energy.npy.txt'' = file_text fs ''energy.npy.txt''"
    by (simp add: file_text_def write_labels_energy)
  have b1: "file_text (write_labels fs ?L) ''box.npy.txt'' = file_text fs ''box.npy.txt''"
    by (simp add: file_text_def write_labels_box)
  show "file_text fs' ''energy.npy.txt''
           = file_text fs ''energy.npy.txt'' @ dict_get (parse_labels (frame ! 1)) ''energy'' [] @ [LF]"
    unfolding fs' l
    by (simp add: Let_def file_text_append write_box_def write_energy_def e1 split: option.splits)
  show "file_text fs' ''box.npy.txt''
           = file_text fs ''box.npy.txt''
             @ (case parse_pbc (frame ! 1) of
                  None \<Rightarrow> []
                | Some p \<Rightarrow> if p \<noteq> ''F F F'' then p @ [LF] else [])"
    unfolding fs' l
    by (auto simp: Let_def file_text_append write_box_def write_energy_def b1 split: option.splits
        dest: parse_pbc_nonempty)
qed

lemma split_frames_energy_box:
  "split_frames fs frames = Inr out \<Longrightarrow>
     file_text out ''energy.npy.txt''
       = file_text fs ''energy.npy.txt''
         @ concat (map (\<lambda>frame. dict_get (parse_labels (frame ! 1)) ''energy'' [] @ [LF]) frames)
   \<and> file_text out ''box.npy.txt''
       = file_text fs ''box.npy.txt''
         @ concat (map (\<lambda>frame. case parse_pbc (frame ! 1) of
                                   None \<Rightarrow> []
                                 | Some p \<Rightarrow> if p \<noteq> ''F F F'' then p @ [LF] else []) frames)"
proof (induction frames arbitrary: fs)
  case Nil
  then show ?case by simp
next
  case (Cons fr frames)
  from Cons.prems obtain fs' where f: "split_frame fs fr = Inr fs'"
    and r: "split_frames fs' frames = Inr out"
    by (auto split: sum.splits)
  from Cons.IH [OF r] split_frame_energy_box [OF f] show ?case by simp
qed

text \<open>
  C8. When \<^verbatim>\<open>split_extxyz\<close> parses a file, the energy stream is, frame by frame in order,
  the value of the frame's \<^verbatim>\<open>energy\<close> label (the empty string when the metadata line has
  none) followed by a newline; and the box stream is, in order, the pbc token followed by a
  newline for exactly those frames whose metadata line has a pbc token different from
  \<^verbatim>\<open>F F F\<close>.
\<close>

theorem split_extxyz_energy_and_box_streams:
  assumes "fs input_file = Some content"
    and "split_extxyz fs input_file = (printed, Some out)"
  shows "file_text out ''energy.npy.txt''
           = concat (map (\<lambda>frame. dict_get (parse_labels (frame ! 1)) ''energy'' [] @ [LF])
                      (collect_frames (file_lines content) [] []))
       \<and> file_text out ''box.npy.txt''
           = concat (map (\<lambda>frame. case parse_pbc (frame ! 1) of
                                     None \<Rightarrow> []
                                   | Some p \<Rightarrow> if p \<noteq> ''F F F'' then p @ [LF] else [])
                      (collect_frames (file_lines content) [] []))"
proof -
  from assms have "split_frames Map.empty (collect_frames (file_lines content) [] []) = Inr out"
    by (simp add: split_extxyz_def split_text_def split: sum.splits)
  from split_frames_energy_box [OF this] show ?thesis by (simp add: file_text_def)
qed

theorem split_extxyz_energy_and_box_streams_witness:
  "\<exists>out. split_extxyz [''in.extxyz'' \<mapsto>
        ''1'' @ [LF] @ ''Properties=species:S:1:pos:R:3 energy=-1.5 pbc='' @ [DQ] @ ''T T T'' @ [DQ] @ [LF]
        @ ''H 0 0 0'' @ [LF]
        @ ''1'' @ [LF] @ ''Properties=species:S:1:pos:R:3 pbc='' @ [DQ] @ ''F F F'' @ [DQ] @ [LF]
        @ ''O 1 1 1''] ''in.extxyz'' = ([], Some out)
     \<and> file_text out ''energy.npy.txt'' = ''-1.5'' @ [LF] @ [LF]
     \<and> file_text out ''box.npy.txt'' = ''T T T'' @ [LF]"
proof -
  let ?text = "''1'' @ [LF] @ ''Properties=species:S:1:pos:R:3 energy=-1.5 pbc='' @ [DQ] @ ''T T T'' @ [DQ] @ [LF]
        @ ''H 0 0 0'' @ [LF]
        @ ''1'' @ [LF] @ ''Properties=species:S:1:pos:R:3 pbc='' @ [DQ] @ ''F F F'' @ [DQ] @ [LF]
        @ ''O 1 1 1''"
  let ?fs = "[''in.extxyz'' \<mapsto> ?text]"
  have a: "?fs ''in.extxyz'' = Some ?text" by simp
  have "fst (split_extxyz ?fs ''in.extxyz'') = [] \<and> \<not> Option.is_none (snd (split_extxyz ?fs ''in.extxyz''))"
    by code_simp
  then obtain out where b: "split_extxyz ?fs ''in.extxyz'' = ([], Some out)"
    by (cases "split_extxyz ?fs ''in.extxyz''") (auto simp: Option.is_none_def)
  have e: "concat (map (\<lambda>frame. dict_get (parse_labels (frame ! 1)) ''energy'' [] @ [LF])
                      (collect_frames (file_lines ?text) [] [])) = ''-1.5'' @ [LF] @ [LF]"
    by code_simp
  have x: "concat (map (\<lambda>frame. case parse_pbc (frame ! 1) of
                                     None \<Rightarrow> []
                                   | Some p \<Rightarrow> if p \<noteq> ''F F F'' then p @ [LF] else [])
                      (collect_frames (file_lines ?text) [] [])) = ''T T T'' @ [LF]"
    by code_simp
  from split_extxyz_energy_and_box_streams [OF a b] e x b show ?thesis by auto
qed

section \<open>Round trip through the extended format\<close>

subsection \<open>Lines of a file\<close>



















subsection \<open>What a valid collection guarantees, and the text generated for it\<close>










subsection \<open>Scanning frames\<close>











subsection \<open>Shape of the generated lines\<close>
















subsection \<open>Files written for the atoms of a frame\<close>













lemma one_line_append [simp]: "one_line (a @ b) = (one_line a \<and> one_line b)"
  by (auto simp: one_line_def)

lemma one_line_Cons [simp]: "one_line (c # s) = (c \<noteq> LF \<and> c \<noteq> CR \<and> one_line s)"
  by (auto simp: one_line_def)

lemma one_line_Nil [simp]: "one_line []"
  by (simp add: one_line_def)
























subsection \<open>The energy label of a generated metadata line\<close>















subsection \<open>The labels and the pbc token of a generated metadata line\<close>




















subsection \<open>The round trip\<close>




subsection \<open>The conditions on label names, quotes and box tokens cannot be dropped\<close>

text \<open>A label named \<^verbatim>\<open>pbc\<close> is serialized, but the parser skips the key: no stream is written
  for it.\<close>

lemma label_named_pbc_not_written:
  "validate_data_consistency [[''H'']] [[''0'', ''0'', ''0'']] [[''1.5'']] None None
       [(''pbc'', Some [LStr ''x''])] = ([], Inr ())
   \<and> \<not> isl (snd (generate_extxyz_content [[''H'']] [[''0'', ''0'', ''0'']] [[''1.5'']] None None
                   [(''pbc'', Some [LStr ''x''])] ''fff''))
   \<and> \<not> isl (split_text (projr (snd (generate_extxyz_content [[''H'']] [[''0'', ''0'', ''0'']] [[''1.5'']]
                                      None None [(''pbc'', Some [LStr ''x''])] ''fff''))))
   \<and> Option.is_none
         (projr (split_text (projr (snd (generate_extxyz_content [[''H'']] [[''0'', ''0'', ''0'']] [[''1.5'']]
                                            None None [(''pbc'', Some [LStr ''x''])] ''fff''))))
            ''pbc.txt'')"
  by code_simp

text \<open>A label named \<^verbatim>\<open>energy\<close> is overwritten by the energy token that follows it in the
  metadata line: its stream holds the energy, not the label value.\<close>

lemma label_named_energy_overwritten:
  "validate_data_consistency [[''H'']] [[''0'', ''0'', ''0'']] [[''1.5'']] None None
       [(''energy'', Some [LStr ''zz''])] = ([], Inr ())
   \<and> \<not> isl (snd (generate_extxyz_content [[''H'']] [[''0'', ''0'', ''0'']] [[''1.5'']] None None
                   [(''energy'', Some [LStr ''zz''])] ''fff''))
   \<and> \<not> isl (split_text (projr (snd (generate_extxyz_content [[''H'']] [[''0'', ''0'', ''0'']] [[''1.5'']]
                                      None None [(''energy'', Some [LStr ''zz''])] ''fff''))))
   \<and> file_text
         (projr (split_text (projr (snd (generate_extxyz_content [[''H'']] [[''0'', ''0'', ''0'']] [[''1.5'']]
                                            None None [(''energy'', Some [LStr ''zz''])] ''fff'')))))
         ''energy.txt'' = ''1.5'' @ [LF]"
  by code_simp

text \<open>A label value that contains a quoted pbc token is found by the search for the pbc
  token before the real one: in mode \<^verbatim>\<open>fff\<close>, without box data, a box stream is written.\<close>

lemma quoted_label_value_read_as_box:
  "validate_data_consistency [[''H'']] [[''0'', ''0'', ''0'']] [[''1.5'']] None None
       [(''tag'', Some [LStr (''pbc='' @ [DQ] @ ''T T T'' @ [DQ])])] = ([], Inr ())
   \<and> \<not> isl (snd (generate_extxyz_content [[''H'']] [[''0'', ''0'', ''0'']] [[''1.5'']] None None
                   [(''tag'', Some [LStr (''pbc='' @ [DQ] @ ''T T T'' @ [DQ])])] ''fff''))
   \<and> \<not> isl (split_text (projr (snd (generate_extxyz_content [[''H'']] [[''0'', ''0'', ''0'']] [[''1.5'']]
                                      None None [(''tag'', Some [LStr (''pbc='' @ [DQ] @ ''T T T'' @ [DQ])])]
                                      ''fff''))))
   \<and> file_text
         (projr (split_text (projr (snd (generate_extxyz_content [[''H'']] [[''0'', ''0'', ''0'']] [[''1.5'']]
                                            None None
                                            [(''tag'', Some [LStr (''pbc='' @ [DQ] @ ''T T T'' @ [DQ])])]
                                            ''fff'')))))
         ''box.npy.txt'' = ''T_T_T'' @ [LF]"
  by code_simp

text \<open>In mode \<^verbatim>\<open>box\<close>, a box token that contains \<^verbatim>\<open>=\<close> is read as a label: here it
  replaces the energy.\<close>

lemma box_token_with_equals_read_as_energy:
  "validate_data_consistency [[''H'']] [[''0'', ''0'', ''0'']] [[''1.5'']] None
       (Some [[''T'', ''energy=9'']]) [] = ([], Inr ())
   \<and> \<not> isl (snd (generate_extxyz_content [[''H'']] [[''0'', ''0'', ''0'']] [[''1.5'']] None
                   (Some [[''T'', ''energy=9'']]) [] ''box''))
   \<and> \<not> isl (split_text (projr (snd (generate_extxyz_content [[''H'']] [[''0'', ''0'', ''0'']] [[''1.5'']]
                                      None (Some [[''T'', ''energy=9'']]) [] ''box''))))
   \<and> file_text
         (projr (split_text (projr (snd (generate_extxyz_content [[''H'']] [[''0'', ''0'', ''0'']] [[''1.5'']]
                                            None (Some [[''T'', ''energy=9'']]) [] ''box'')))))
         ''energy.npy.txt'' = ''9'' @ [DQ] @ [LF]"
  by code_simp

section \<open>The operations do not change their inputs\<close>

lemma append_error_inputs [simp]:
  "in_atom_types (append_error m s) = in_atom_types s"
  "in_coordinates (append_error m s) = in_coordinates s"
  "in_energies (append_error m s) = in_energies s"
  "in_forces (append_error m s) = in_forces s"
  "in_box (append_error m s) = in_box s"
  "in_labels (append_error m s) = in_labels s"
  "loc_errors (append_error m s) = loc_errors s @ [m]"
  by (simp_all add: append_error_def)

lemma label_checks_store_char:
  "\<exists>E. label_checks_store n L s
         = (case label_checks n L of Inl e \<Rightarrow> Some e | Inr _ \<Rightarrow> None, s\<lparr>loc_errors := E\<rparr>)
       \<and> (\<forall>errs. label_checks n L = Inr errs \<longrightarrow> E = loc_errors s @ errs)"
proof (induction L arbitrary: s)
  case Nil
  have "s = s\<lparr>loc_errors := loc_errors s\<rparr>" by simp
  then show ?case by (intro exI [of _ "loc_errors s"]) simp
next
  case (Cons entry L)
  obtain name vals where entry: "entry = (name, vals)" by (cases entry)
  show ?case
  proof (cases vals)
    case None
    have "s = s\<lparr>loc_errors := loc_errors s\<rparr>" by simp
    with None show ?thesis unfolding entry by (intro exI [of _ "loc_errors s"]) simp
  next
    case (Some vs)
    let ?v = "if length vs \<noteq> n then [LabelCountViolation name (length vs) n] else []"
    let ?s = "if length vs \<noteq> n then append_error (LabelCountViolation name (length vs) n) s else s"
    have s': "?s = s\<lparr>loc_errors := loc_errors s @ ?v\<rparr>" by (simp add: append_error_def)
    from Cons.IH [of ?s] obtain E where
      r: "label_checks_store n L ?s
           = (case label_checks n L of Inl e \<Rightarrow> Some e | Inr _ \<Rightarrow> None, ?s\<lparr>loc_errors := E\<rparr>)"
      and e: "\<forall>errs. label_checks n L = Inr errs \<longrightarrow> E = loc_errors ?s @ errs"
      by blast
    have upd: "?s\<lparr>loc_errors := E\<rparr> = s\<lparr>loc_errors := E\<rparr>" by (simp add: append_error_def)
    show ?thesis
    proof (intro exI [of _ E] conjI allI impI)
      show "label_checks_store n (entry # L) s
         = (case label_checks n (entry # L) of Inl e \<Rightarrow> Some e | Inr _ \<Rightarrow> None, s\<lparr>loc_errors := E\<rparr>)"
        unfolding entry using Some r upd by (simp split: sum.splits)
    next
      fix errs assume "label_checks n (entry # L) = Inr errs"
      then obtain errs' where "label_checks n L = Inr errs'" and "errs = ?v @ errs'"
        unfolding entry using Some by (auto split: sum.splits)
      with e show "E = loc_errors s @ errs" by (simp add: append_error_def)
    qed
  qed
qed

lemma frame_checks_store_char:
  "\<exists>E. frame_checks_store is s
         = (case frame_checks (in_atom_types s) (in_coordinates s) (in_forces s) is of
              Inl e \<Rightarrow> Some e | Inr _ \<Rightarrow> None, s\<lparr>loc_errors := E\<rparr>)
       \<and> (\<forall>errs. frame_checks (in_atom_types s) (in_coordinates s) (in_forces s) is = Inr errs
             \<longrightarrow> E = loc_errors s @ errs)"
proof (induction "is" arbitrary: s)
  case Nil
  have "s = s\<lparr>loc_errors := loc_errors s\<rparr>" by simp
  then show ?case by (intro exI [of _ "loc_errors s"]) simp
next
  case (Cons i "is")
  let ?at = "in_atom_types s" and ?co = "in_coordinates s" and ?fo = "in_forces s"
  let ?n = "length (?at ! i) * 3"
  have same: "s = s\<lparr>loc_errors := loc_errors s\<rparr>" by simp
  show ?case
  proof (cases "i < length ?co")
    case False
    with same show ?thesis by (intro exI [of _ "loc_errors s"]) (simp add: Let_def)
  next
    case True
    let ?ce = "if length (?co ! i) \<noteq> ?n then [CoordLengthViolation i ?n (length (?co ! i))] else []"
    let ?s1 = "if length (?co ! i) \<noteq> ?n
               then append_error (CoordLengthViolation i ?n (length (?co ! i))) s else s"
    have s1: "?s1 = s\<lparr>loc_errors := loc_errors s @ ?ce\<rparr>" by (simp add: append_error_def)
    have in1: "in_atom_types ?s1 = ?at" "in_coordinates ?s1 = ?co" "in_forces ?s1 = ?fo" by simp_all
    show ?thesis
    proof (cases ?fo)
      case None
      from Cons.IH [of ?s1] obtain E where
        r: "frame_checks_store is ?s1
             = (case frame_checks ?at ?co ?fo is of Inl e \<Rightarrow> Some e | Inr _ \<Rightarrow> None, ?s1\<lparr>loc_errors := E\<rparr>)"
        and e: "\<forall>errs. frame_checks ?at ?co ?fo is = Inr errs \<longrightarrow> E = loc_errors ?s1 @ errs"
        unfolding in1 by blast
      have upd: "?s1\<lparr>loc_errors := E\<rparr> = s\<lparr>loc_errors := E\<rparr>" by (simp add: append_error_def)
      show ?thesis
      proof (intro exI [of _ E] conjI allI impI)
        show "frame_checks_store (i # is) s
           = (case frame_checks ?at ?co ?fo (i # is) of Inl e \<Rightarrow> Some e | Inr _ \<Rightarrow> None, s\<lparr>loc_errors := E\<rparr>)"
          using True None r upd in1 by (simp add: Let_def split: sum.splits)
      next
        fix errs assume "frame_checks ?at ?co ?fo (i # is) = Inr errs"
        then obtain errs' where "frame_checks ?at ?co ?fo is = Inr errs'" and "errs = ?ce @ errs'"
          using True None by (auto simp: Let_def split: sum.splits)
        with e show "E = loc_errors s @ errs" by (simp add: append_error_def)
      qed
    next
      case (Some fs)
      show ?thesis
      proof (cases "i < length fs")
        case False
        have "?s1 = s\<lparr>loc_errors := loc_errors ?s1\<rparr>" by (simp add: append_error_def)
        with True Some False in1 show ?thesis
          by (intro exI [of _ "loc_errors ?s1"]) (simp add: Let_def)
      next
        case inb: True
        let ?fe = "if length (fs ! i) \<noteq> ?n then [ForceLengthViolation i ?n (length (fs ! i))] else []"
        let ?s2 = "if length (fs ! i) \<noteq> ?n
                   then append_error (ForceLengthViolation i ?n (length (fs ! i))) ?s1 else ?s1"
        have in2: "in_atom_types ?s2 = ?at" "in_coordinates ?s2 = ?co" "in_forces ?s2 = ?fo" by simp_all
        from Cons.IH [of ?s2] obtain E where
          r: "frame_checks_store is ?s2
               = (case frame_checks ?at ?co ?fo is of Inl e \<Rightarrow> Some e | Inr _ \<Rightarrow> None, ?s2\<lparr>loc_errors := E\<rparr>)"
          and e: "\<forall>errs. frame_checks ?at ?co ?fo is = Inr errs \<longrightarrow> E = loc_errors ?s2 @ errs"
          unfolding in2 by blast
        have upd: "?s2\<lparr>loc_errors := E\<rparr> = s\<lparr>loc_errors := E\<rparr>" by (simp add: append_error_def)
        have l2: "loc_errors ?s2 = loc_errors s @ ?ce @ ?fe" by (simp add: append_error_def)
        show ?thesis
        proof (intro exI [of _ E] conjI allI impI)
          show "frame_checks_store (i # is) s
             = (case frame_checks ?at ?co ?fo (i # is) of Inl e \<Rightarrow> Some e | Inr _ \<Rightarrow> None, s\<lparr>loc_errors := E\<rparr>)"
            using True Some inb r upd in1 by (simp add: Let_def split: sum.splits)
        next
          fix errs assume "frame_checks ?at ?co ?fo (i # is) = Inr errs"
          then obtain errs' where "frame_checks ?at ?co ?fo is = Inr errs'" and "errs = ?ce @ ?fe @ errs'"
            using True Some inb by (auto simp: Let_def split: sum.splits)
          with e l2 show "E = loc_errors s @ errs" by simp
        qed
      qed
    qed
  qed
qed

lemma count_checks_store_char:
  "count_checks_store s
     = s\<lparr>loc_errors := loc_errors s
           @ count_checks (in_atom_types s) (in_coordinates s) (in_energies s) (in_forces s) (in_box s)\<rparr>"
  by (simp add: count_checks_store_def count_checks_def append_error_def Let_def split: option.splits)

lemma validate_store_char:
  "\<exists>E. validate_store s
         = (case snd (validate_data_consistency (in_atom_types s) (in_coordinates s) (in_energies s)
                        (in_forces s) (in_box s) (in_labels s)) of
              Inl e \<Rightarrow> Some e | Inr _ \<Rightarrow> None,
            s\<lparr>loc_errors := E,
              out_printed := out_printed s
                @ fst (validate_data_consistency (in_atom_types s) (in_coordinates s) (in_energies s)
                         (in_forces s) (in_box s) (in_labels s))\<rparr>)"
proof -
  let ?at = "in_atom_types s" and ?co = "in_coordinates s" and ?en = "in_energies s"
  let ?fo = "in_forces s" and ?bx = "in_box s" and ?lb = "in_labels s"
  let ?n = "length ?at"
  let ?e1 = "count_checks ?at ?co ?en ?fo ?bx"
  let ?s1 = "count_checks_store (s\<lparr>loc_errors := []\<rparr>)"
  have s1: "?s1 = s\<lparr>loc_errors := ?e1\<rparr>" by (simp add: count_checks_store_char)
  have pr: "s\<lparr>loc_errors := E, out_printed := out_printed s @ []\<rparr> = s\<lparr>loc_errors := E\<rparr>" for E
    by simp
  from label_checks_store_char [of ?n ?lb ?s1] obtain E2 where
    l: "label_checks_store ?n ?lb ?s1
          = (case label_checks ?n ?lb of Inl e \<Rightarrow> Some e | Inr _ \<Rightarrow> None, s\<lparr>loc_errors := E2\<rparr>)"
    and le: "\<forall>errs. label_checks ?n ?lb = Inr errs \<longrightarrow> E2 = ?e1 @ errs"
    unfolding s1 by auto
  show ?thesis
  proof (cases "label_checks ?n ?lb")
    case (Inl e)
    with l s1 show ?thesis
      by (intro exI [of _ E2]) (simp add: validate_store_def validate_data_consistency_def Let_def)
  next
    case (Inr e2)
    with le have E2: "E2 = ?e1 @ e2" by simp
    let ?s2 = "s\<lparr>loc_errors := E2\<rparr>"
    from frame_checks_store_char [of "[0..<?n]" ?s2] obtain E3 where
      f: "frame_checks_store [0..<?n] ?s2
            = (case frame_checks ?at ?co ?fo [0..<?n] of Inl e \<Rightarrow> Some e | Inr _ \<Rightarrow> None, s\<lparr>loc_errors := E3\<rparr>)"
      and fe: "\<forall>errs. frame_checks ?at ?co ?fo [0..<?n] = Inr errs \<longrightarrow> E3 = E2 @ errs"
      by auto
    show ?thesis
    proof (cases "frame_checks ?at ?co ?fo [0..<?n]")
      case (Inl e)
      with l Inr f s1 show ?thesis
        by (intro exI [of _ E3]) (simp add: validate_store_def validate_data_consistency_def Let_def)
    next
      case inr3: (Inr e3)
      with fe E2 have E3: "E3 = ?e1 @ e2 @ e3" by simp
      from l Inr f inr3 s1 E3 show ?thesis
        by (intro exI [of _ E3]) (simp add: validate_store_def validate_data_consistency_def Let_def)
    qed
  qed
qed

lemma append_content_fields [simp]:
  "in_atom_types (append_content l s) = in_atom_types s"
  "in_coordinates (append_content l s) = in_coordinates s"
  "in_energies (append_content l s) = in_energies s"
  "in_forces (append_content l s) = in_forces s"
  "in_box (append_content l s) = in_box s"
  "in_labels (append_content l s) = in_labels s"
  "loc_content (append_content l s) = loc_content s @ [l]"
  "out_printed (append_content l s) = out_printed s"
  by (simp_all add: append_content_def)

lemma print_line_fields [simp]:
  "in_atom_types (print_line m s) = in_atom_types s"
  "in_coordinates (print_line m s) = in_coordinates s"
  "in_energies (print_line m s) = in_energies s"
  "in_forces (print_line m s) = in_forces s"
  "in_box (print_line m s) = in_box s"
  "in_labels (print_line m s) = in_labels s"
  "loc_content (print_line m s) = loc_content s"
  "out_printed (print_line m s) = out_printed s @ [m]"
  by (simp_all add: print_line_def)

lemma xyz_atoms_store_char:
  "\<exists>C. xyz_atoms_store i js s
         = (case xyz_atoms (in_atom_types s ! i) (in_coordinates s ! i) i js of
              Inl e \<Rightarrow> Some e | Inr _ \<Rightarrow> None, s\<lparr>loc_content := C\<rparr>)
       \<and> (\<forall>ls. xyz_atoms (in_atom_types s ! i) (in_coordinates s ! i) i js = Inr ls
             \<longrightarrow> C = loc_content s @ ls)"
proof (induction js arbitrary: s)
  case Nil
  have "s = s\<lparr>loc_content := loc_content s\<rparr>" by simp
  then show ?case by (intro exI [of _ "loc_content s"]) simp
next
  case (Cons j js)
  let ?atoms = "in_atom_types s ! i" and ?coords = "in_coordinates s ! i"
  have same: "s = s\<lparr>loc_content := loc_content s\<rparr>" by simp
  show ?case
  proof (cases "j < length ?atoms \<and> (j + 1) * 3 \<le> length ?coords")
    case False
    with same show ?thesis by (intro exI [of _ "loc_content s"]) (auto simp: Let_def)
  next
    case True
    let ?l = "?atoms ! j @ '' '' @ join '' '' (slice ?coords (j * 3) ((j + 1) * 3))"
    let ?s1 = "append_content ?l s"
    from Cons.IH [of ?s1] obtain C where
      r: "xyz_atoms_store i js ?s1
            = (case xyz_atoms ?atoms ?coords i js of Inl e \<Rightarrow> Some e | Inr _ \<Rightarrow> None, ?s1\<lparr>loc_content := C\<rparr>)"
      and c: "\<forall>ls. xyz_atoms ?atoms ?coords i js = Inr ls \<longrightarrow> C = loc_content ?s1 @ ls"
      by auto
    have upd: "?s1\<lparr>loc_content := C\<rparr> = s\<lparr>loc_content := C\<rparr>" by (simp add: append_content_def)
    show ?thesis
    proof (intro exI [of _ C] conjI allI impI)
      show "xyz_atoms_store i (j # js) s
         = (case xyz_atoms ?atoms ?coords i (j # js) of Inl e \<Rightarrow> Some e | Inr _ \<Rightarrow> None, s\<lparr>loc_content := C\<rparr>)"
        using True r upd by (simp add: Let_def split: sum.splits)
    next
      fix ls assume "xyz_atoms ?atoms ?coords i (j # js) = Inr ls"
      then obtain ls' where "xyz_atoms ?atoms ?coords i js = Inr ls'" and "ls = ?l # ls'"
        using True by (auto simp: Let_def split: sum.splits)
      with c show "C = loc_content s @ ls" by simp
    qed
  qed
qed

lemma xyz_frame_store_char:
  "\<exists>C. xyz_frame_store i s
         = (case xyz_frame (in_atom_types s) (in_coordinates s) (in_energies s) i of
              Inl e \<Rightarrow> Some e | Inr _ \<Rightarrow> None,
            s\<lparr>loc_content := C,
              out_printed := out_printed s @ [ProcessingFrame i (length (in_atom_types s ! i))]\<rparr>)
       \<and> (\<forall>ls. xyz_frame (in_atom_types s) (in_coordinates s) (in_energies s) i = Inr ls
             \<longrightarrow> C = loc_content s @ ls)"
proof -
  let ?at = "in_atom_types s" and ?co = "in_coordinates s" and ?en = "in_energies s"
  let ?n = "length (?at ! i)"
  let ?P = "out_printed s @ [ProcessingFrame i ?n]"
  let ?s1 = "print_line (ProcessingFrame i ?n) s"
  let ?l1 = "[CHR '' '', CHR '' '', CHR '' '', CHR '' '', CHR '' ''] @ show_nat ?n"
  let ?s2 = "append_content ?l1 ?s1"
  have s1: "?s1 = s\<lparr>loc_content := loc_content s, out_printed := ?P\<rparr>" by (simp add: print_line_def)
  have s2: "?s2 = s\<lparr>loc_content := loc_content s @ [?l1], out_printed := ?P\<rparr>"
    by (simp add: print_line_def append_content_def)
  show ?thesis
  proof (cases "i < length ?en")
    case False
    with s1 show ?thesis
      by (intro exI [of _ "loc_content s"]) (simp add: xyz_frame_store_def xyz_frame_def Let_def)
  next
    case ie: True
    show ?thesis
    proof (cases "first_token ?en i")
      case (Inl e)
      with ie s2 show ?thesis
        by (intro exI [of _ "loc_content s @ [?l1]"]) (simp add: xyz_frame_store_def xyz_frame_def Let_def)
    next
      case (Inr energy)
      let ?l2 = "'' i = '' @ show_nat i @ '', E = '' @ energy"
      let ?s3 = "append_content ?l2 ?s2"
      have s3: "?s3 = s\<lparr>loc_content := loc_content s @ [?l1, ?l2], out_printed := ?P\<rparr>"
        by (simp add: print_line_def append_content_def)
      show ?thesis
      proof (cases "i < length ?co \<and> length (?co ! i) = ?n * 3")
        case False
        with ie Inr s3 show ?thesis
          by (intro exI [of _ "loc_content s @ [?l1, ?l2]"])
             (auto simp: xyz_frame_store_def xyz_frame_def Let_def)
      next
        case True
        from xyz_atoms_store_char [of i "[0..<?n]" ?s3] obtain C where
          r: "xyz_atoms_store i [0..<?n] ?s3
                = (case xyz_atoms (?at ! i) (?co ! i) i [0..<?n] of Inl e \<Rightarrow> Some e | Inr _ \<Rightarrow> None,
                   ?s3\<lparr>loc_content := C\<rparr>)"
          and c: "\<forall>ls. xyz_atoms (?at ! i) (?co ! i) i [0..<?n] = Inr ls \<longrightarrow> C = loc_content ?s3 @ ls"
          by auto
        have upd: "?s3\<lparr>loc_content := C\<rparr> = s\<lparr>loc_content := C, out_printed := ?P\<rparr>"
          by (simp add: print_line_def append_content_def)
        show ?thesis
        proof (intro exI [of _ C] conjI allI impI)
          show "xyz_frame_store i s
                  = (case xyz_frame ?at ?co ?en i of Inl e \<Rightarrow> Some e | Inr _ \<Rightarrow> None,
                     s\<lparr>loc_content := C, out_printed := ?P\<rparr>)"
            using ie Inr True r upd
            by (simp add: xyz_frame_store_def xyz_frame_def Let_def split: sum.splits)
        next
          fix ls assume "xyz_frame ?at ?co ?en i = Inr ls"
          then obtain ls' where "xyz_atoms (?at ! i) (?co ! i) i [0..<?n] = Inr ls'"
            and "ls = ?l1 # ?l2 # ls'"
            using ie Inr True by (auto simp: xyz_frame_def Let_def split: sum.splits)
          with c show "C = loc_content s @ ls" by simp
        qed
      qed
    qed
  qed
qed

lemma xyz_frames_store_char:
  "\<exists>C. xyz_frames_store is s
         = (case snd (xyz_frames (in_atom_types s) (in_coordinates s) (in_energies s) is) of
              Inl e \<Rightarrow> Some e | Inr _ \<Rightarrow> None,
            s\<lparr>loc_content := C,
              out_printed := out_printed s
                @ fst (xyz_frames (in_atom_types s) (in_coordinates s) (in_energies s) is)\<rparr>)
       \<and> (\<forall>ls. snd (xyz_frames (in_atom_types s) (in_coordinates s) (in_energies s) is) = Inr ls
             \<longrightarrow> C = loc_content s @ ls)"
proof (induction "is" arbitrary: s)
  case Nil
  have "s = s\<lparr>loc_content := loc_content s, out_printed := out_printed s\<rparr>" by simp
  then show ?case by (intro exI [of _ "loc_content s"]) simp
next
  case (Cons i "is")
  let ?at = "in_atom_types s" and ?co = "in_coordinates s" and ?en = "in_energies s"
  let ?pf = "ProcessingFrame i (length (?at ! i))"
  from xyz_frame_store_char [of i s] obtain C1 where
    f: "xyz_frame_store i s
          = (case xyz_frame ?at ?co ?en i of Inl e \<Rightarrow> Some e | Inr _ \<Rightarrow> None,
             s\<lparr>loc_content := C1, out_printed := out_printed s @ [?pf]\<rparr>)"
    and c1: "\<forall>ls. xyz_frame ?at ?co ?en i = Inr ls \<longrightarrow> C1 = loc_content s @ ls"
    by auto
  show ?case
  proof (cases "xyz_frame ?at ?co ?en i")
    case (Inl e)
    with f show ?thesis by (intro exI [of _ C1]) (simp add: Let_def)
  next
    case (Inr frame_lines)
    let ?s1 = "s\<lparr>loc_content := C1, out_printed := out_printed s @ [?pf]\<rparr>"
    from c1 Inr have C1: "C1 = loc_content s @ frame_lines" by simp
    from Cons.IH [of ?s1] obtain C where
      r: "xyz_frames_store is ?s1
            = (case snd (xyz_frames ?at ?co ?en is) of Inl e \<Rightarrow> Some e | Inr _ \<Rightarrow> None,
               ?s1\<lparr>loc_content := C, out_printed := out_printed ?s1 @ fst (xyz_frames ?at ?co ?en is)\<rparr>)"
      and c: "\<forall>ls. snd (xyz_frames ?at ?co ?en is) = Inr ls \<longrightarrow> C = loc_content ?s1 @ ls"
      by auto
    obtain printed res where x: "xyz_frames ?at ?co ?en is = (printed, res)"
      by (cases "xyz_frames ?at ?co ?en is")
    show ?thesis
    proof (intro exI [of _ C] conjI allI impI)
      show "xyz_frames_store (i # is) s
              = (case snd (xyz_frames ?at ?co ?en (i # is)) of Inl e \<Rightarrow> Some e | Inr _ \<Rightarrow> None,
                 s\<lparr>loc_content := C, out_printed := out_printed s @ fst (xyz_frames ?at ?co ?en (i # is))\<rparr>)"
        using f Inr r x by (cases res) (simp_all add: Let_def)
    next
      fix ls assume "snd (xyz_frames ?at ?co ?en (i # is)) = Inr ls"
      with Inr x obtain ls' where "res = Inr ls'" and "ls = frame_lines @ ls'"
        by (cases res) (simp_all add: Let_def)
      with c x C1 show "C = loc_content s @ ls" by simp
    qed
  qed
qed

lemma generate_xyz_content_store_char:
  "\<exists>C. generate_xyz_content_store s
         = (snd (generate_xyz_content (in_atom_types s) (in_coordinates s) (in_energies s)),
            s\<lparr>loc_content := C,
              out_printed := out_printed s
                @ fst (generate_xyz_content (in_atom_types s) (in_coordinates s) (in_energies s))\<rparr>)"
proof -
  let ?at = "in_atom_types s" and ?co = "in_coordinates s" and ?en = "in_energies s"
  let ?s0 = "s\<lparr>loc_content := []\<rparr>"
  from xyz_frames_store_char [of "[0..<length ?at]" ?s0] obtain C where
    r: "xyz_frames_store [0..<length ?at] ?s0
          = (case snd (xyz_frames ?at ?co ?en [0..<length ?at]) of Inl e \<Rightarrow> Some e | Inr _ \<Rightarrow> None,
             s\<lparr>loc_content := C, out_printed := out_printed s @ fst (xyz_frames ?at ?co ?en [0..<length ?at])\<rparr>)"
    and c: "\<forall>ls. snd (xyz_frames ?at ?co ?en [0..<length ?at]) = Inr ls \<longrightarrow> C = ls"
    by auto
  obtain printed res where x: "xyz_frames ?at ?co ?en [0..<length ?at] = (printed, res)"
    by (cases "xyz_frames ?at ?co ?en [0..<length ?at]")
  show ?thesis
    using r c x
    by (intro exI [of _ C]) (cases res; simp add: generate_xyz_content_store_def generate_xyz_content_def Let_def)
qed

lemma label_tokens_store_char:
  "label_tokens_store L i line s
     = (line @ snd (label_tokens L i), s\<lparr>out_printed := out_printed s @ fst (label_tokens L i)\<rparr>)"
proof (induction L arbitrary: line s)
  case Nil
  show ?case by simp
next
  case (Cons entry L)
  obtain label vals where entry: "entry = (label, vals)" by (cases entry)
  obtain w t where lt: "label_tokens L i = (w, t)" by (cases "label_tokens L i")
  show ?case
  proof (cases "\<exists>vs. vals = Some vs \<and> i < length vs")
    case True
    then obtain vs where "vals = Some vs" "i < length vs" by blast
    then show ?thesis unfolding entry using Cons.IH lt by (simp add: label_token_def)
  next
    case False
    then have "label_token i (label, vals) = ([MissingLabelWarning i label], [])"
      by (cases vals) (auto simp: label_token_def)
    moreover have "label_tokens_store ((label, vals) # L) i line s
                     = label_tokens_store L i line (print_line (MissingLabelWarning i label) s)"
      using False by (cases vals) auto
    ultimately show ?thesis unfolding entry using Cons.IH lt by (simp add: print_line_def)
  qed
qed

lemma extxyz_atoms_store_char:
  "\<exists>C. extxyz_atoms_store i js s
         = (case extxyz_atoms (in_atom_types s ! i) (in_coordinates s ! i)
                   (map_option (\<lambda>fs. fs ! i) (in_forces s)) i js of
              Inl e \<Rightarrow> Some e | Inr _ \<Rightarrow> None, s\<lparr>loc_content := C\<rparr>)
       \<and> (\<forall>ls. extxyz_atoms (in_atom_types s ! i) (in_coordinates s ! i)
                   (map_option (\<lambda>fs. fs ! i) (in_forces s)) i js = Inr ls
             \<longrightarrow> C = loc_content s @ ls)"
proof (induction js arbitrary: s)
  case Nil
  have "s = s\<lparr>loc_content := loc_content s\<rparr>" by simp
  then show ?case by (intro exI [of _ "loc_content s"]) simp
next
  case (Cons j js)
  let ?atoms = "in_atom_types s ! i" and ?coords = "in_coordinates s ! i"
  let ?fr = "map_option (\<lambda>fs. fs ! i) (in_forces s)"
  have same: "s = s\<lparr>loc_content := loc_content s\<rparr>" by simp
  show ?case
  proof (cases "j < length ?atoms \<and> (j + 1) * 3 \<le> length ?coords
                 \<and> (\<forall>fs. in_forces s = Some fs \<longrightarrow> (j + 1) * 3 \<le> length (fs ! i))")
    case False
    with same show ?thesis
      by (intro exI [of _ "loc_content s"]) (cases "in_forces s"; auto simp: Let_def)
  next
    case True
    let ?l = "?atoms ! j @ '' '' @ join '' '' (slice ?coords (j * 3) ((j + 1) * 3))
              @ (case in_forces s of None \<Rightarrow> []
                 | Some fs \<Rightarrow> '' '' @ join '' '' (slice (fs ! i) (j * 3) ((j + 1) * 3)))"
    let ?s1 = "append_content ?l s"
    from Cons.IH [of ?s1] obtain C where
      r: "extxyz_atoms_store i js ?s1
            = (case extxyz_atoms ?atoms ?coords ?fr i js of Inl e \<Rightarrow> Some e | Inr _ \<Rightarrow> None,
               ?s1\<lparr>loc_content := C\<rparr>)"
      and c: "\<forall>ls. extxyz_atoms ?atoms ?coords ?fr i js = Inr ls \<longrightarrow> C = loc_content ?s1 @ ls"
      by auto
    have upd: "?s1\<lparr>loc_content := C\<rparr> = s\<lparr>loc_content := C\<rparr>" by (simp add: append_content_def)
    show ?thesis
    proof (intro exI [of _ C] conjI allI impI)
      show "extxyz_atoms_store i (j # js) s
         = (case extxyz_atoms ?atoms ?coords ?fr i (j # js) of Inl e \<Rightarrow> Some e | Inr _ \<Rightarrow> None,
            s\<lparr>loc_content := C\<rparr>)"
        using True r upd by (cases "in_forces s") (simp_all add: Let_def split: sum.splits)
    next
      fix ls assume "extxyz_atoms ?atoms ?coords ?fr i (j # js) = Inr ls"
      then obtain ls' where "extxyz_atoms ?atoms ?coords ?fr i js = Inr ls'" and "ls = ?l # ls'"
        using True by (cases "in_forces s") (auto simp: Let_def split: sum.splits)
      with c show "C = loc_content s @ ls" by simp
    qed
  qed
qed

lemma extxyz_frame_store_char:
  "\<exists>C. extxyz_frame_store pbc_option i s
         = (case snd (extxyz_frame (in_atom_types s) (in_coordinates s) (in_energies s) (in_forces s)
                        (in_box s) (in_labels s) pbc_option i) of
              Inl e \<Rightarrow> Some e | Inr _ \<Rightarrow> None,
            s\<lparr>loc_content := C,
              out_printed := out_printed s
                @ fst (extxyz_frame (in_atom_types s) (in_coordinates s) (in_energies s) (in_forces s)
                         (in_box s) (in_labels s) pbc_option i)\<rparr>)
       \<and> (\<forall>ls. snd (extxyz_frame (in_atom_types s) (in_coordinates s) (in_energies s) (in_forces s)
                        (in_box s) (in_labels s) pbc_option i) = Inr ls
             \<longrightarrow> C = loc_content s @ ls)"
proof -
  let ?at = "in_atom_types s" and ?co = "in_coordinates s" and ?en = "in_energies s"
  let ?fo = "in_forces s" and ?bx = "in_box s" and ?lb = "in_labels s"
  let ?n = "length (?at ! i)"
  let ?pf = "ProcessingFrame i ?n"
  let ?s1 = "print_line ?pf s"
  let ?l1 = "show_nat ?n"
  let ?s2 = "append_content ?l1 ?s1"
  let ?W = "fst (label_tokens ?lb i)"
  let ?s3 = "?s2\<lparr>out_printed := out_printed ?s2 @ ?W\<rparr>"
  let ?line = "properties_token ?fo @ snd (label_tokens ?lb i)"
  have lts: "label_tokens_store ?lb i (properties_token ?fo) ?s2 = (?line, ?s3)"
    by (simp add: label_tokens_store_char)
  have s1: "?s1 = s\<lparr>loc_content := loc_content s, out_printed := out_printed s @ [?pf]\<rparr>"
    by (simp add: print_line_def)
  have s3: "?s3 = s\<lparr>loc_content := loc_content s @ [?l1], out_printed := out_printed s @ ?pf # ?W\<rparr>"
    by (simp add: print_line_def append_content_def)
  have in3: "in_atom_types ?s3 = ?at" "in_coordinates ?s3 = ?co" "in_energies ?s3 = ?en"
    "in_forces ?s3 = ?fo" "in_box ?s3 = ?bx"
    by simp_all
  show ?thesis
  proof (cases "i < length ?en")
    case False
    with s1 show ?thesis
      by (intro exI [of _ "loc_content s"]) (simp add: extxyz_frame_store_def extxyz_frame_def Let_def)
  next
    case ie: True
    show ?thesis
    proof (cases "first_token ?en i")
      case (Inl e)
      with ie lts s3 show ?thesis
        by (intro exI [of _ "loc_content s @ [?l1]"])
           (simp add: extxyz_frame_store_def extxyz_frame_def Let_def in3)
    next
      case (Inr energy)
      let ?l2 = "metadata_line ?fo ?lb energy ?bx pbc_option i"
      have l2: "?line @ '' energy='' @ energy @ '' pbc='' @ [DQ] @ pbc_value pbc_option (in_box ?s3) i @ [DQ]
                  = ?l2"
        by (simp add: metadata_line_def)
      let ?s4 = "append_content ?l2 ?s3"
      have s4: "?s4 = s\<lparr>loc_content := loc_content s @ [?l1, ?l2], out_printed := out_printed s @ ?pf # ?W\<rparr>"
        by (simp add: print_line_def append_content_def)
      have in4: "in_atom_types ?s4 = ?at" "in_coordinates ?s4 = ?co" "in_forces ?s4 = ?fo" by simp_all
      show ?thesis
      proof (cases "i < length ?co \<and> length (?co ! i) = ?n * 3 \<and> \<not> isl (force_row_check ?fo i ?n)")
        case False
        with ie Inr show ?thesis
          by (intro exI [of _ "loc_content s @ [?l1, ?l2]"])
             (cases "force_row_check ?fo i ?n";
              auto simp: extxyz_frame_store_def extxyz_frame_def Let_def label_tokens_store_char
                metadata_line_def print_line_def append_content_def)
      next
        case True
        then obtain fr where frc: "force_row_check ?fo i ?n = Inr fr"
          by (cases "force_row_check ?fo i ?n") auto
        then have fr: "fr = map_option (\<lambda>fs. fs ! i) ?fo"
          by (auto simp: force_row_check_def split: option.splits if_splits)
        from extxyz_atoms_store_char [of i "[0..<?n]" ?s4] obtain C where
          r: "extxyz_atoms_store i [0..<?n] ?s4
                = (case extxyz_atoms (?at ! i) (?co ! i) fr i [0..<?n] of Inl e \<Rightarrow> Some e | Inr _ \<Rightarrow> None,
                   ?s4\<lparr>loc_content := C\<rparr>)"
          and c: "\<forall>ls. extxyz_atoms (?at ! i) (?co ! i) fr i [0..<?n] = Inr ls \<longrightarrow> C = loc_content ?s4 @ ls"
          unfolding in4 fr by auto
        have upd: "?s4\<lparr>loc_content := C\<rparr> = s\<lparr>loc_content := C, out_printed := out_printed s @ ?pf # ?W\<rparr>"
          by (simp add: print_line_def append_content_def)
        show ?thesis
        proof (intro exI [of _ C] conjI allI impI)
          show "extxyz_frame_store pbc_option i s
                  = (case snd (extxyz_frame ?at ?co ?en ?fo ?bx ?lb pbc_option i) of
                       Inl e \<Rightarrow> Some e | Inr _ \<Rightarrow> None,
                     s\<lparr>loc_content := C,
                       out_printed := out_printed s @ fst (extxyz_frame ?at ?co ?en ?fo ?bx ?lb pbc_option i)\<rparr>)"
            using ie Inr True frc r
            by (simp add: extxyz_frame_store_def extxyz_frame_def Let_def label_tokens_store_char
                metadata_line_def print_line_def append_content_def split: sum.splits)
        next
          fix ls assume "snd (extxyz_frame ?at ?co ?en ?fo ?bx ?lb pbc_option i) = Inr ls"
          then obtain ls' where "extxyz_atoms (?at ! i) (?co ! i) fr i [0..<?n] = Inr ls'"
            and "ls = ?l1 # ?l2 # ls'"
            using ie Inr True frc by (auto simp: extxyz_frame_def Let_def split: sum.splits)
          with c show "C = loc_content s @ ls" by (simp add: print_line_def append_content_def)
        qed
      qed
    qed
  qed
qed

lemma extxyz_frames_store_char:
  "\<exists>C. extxyz_frames_store pbc_option is s
         = (case snd (extxyz_frames (in_atom_types s) (in_coordinates s) (in_energies s) (in_forces s)
                        (in_box s) (in_labels s) pbc_option is) of
              Inl e \<Rightarrow> Some e | Inr _ \<Rightarrow> None,
            s\<lparr>loc_content := C,
              out_printed := out_printed s
                @ fst (extxyz_frames (in_atom_types s) (in_coordinates s) (in_energies s) (in_forces s)
                         (in_box s) (in_labels s) pbc_option is)\<rparr>)
       \<and> (\<forall>ls. snd (extxyz_frames (in_atom_types s) (in_coordinates s) (in_energies s) (in_forces s)
                        (in_box s) (in_labels s) pbc_option is) = Inr ls
             \<longrightarrow> C = loc_content s @ ls)"
proof (induction "is" arbitrary: s)
  case Nil
  have "s = s\<lparr>loc_content := loc_content s, out_printed := out_printed s\<rparr>" by simp
  then show ?case by (intro exI [of _ "loc_content s"]) simp
next
  case (Cons i "is")
  let ?at = "in_atom_types s" and ?co = "in_coordinates s" and ?en = "in_energies s"
  let ?fo = "in_forces s" and ?bx = "in_box s" and ?lb = "in_labels s"
  let ?F = "extxyz_frame ?at ?co ?en ?fo ?bx ?lb pbc_option i"
  let ?R = "extxyz_frames ?at ?co ?en ?fo ?bx ?lb pbc_option is"
  obtain p1 r1 where F: "?F = (p1, r1)" by (cases ?F)
  obtain p2 r2 where R: "?R = (p2, r2)" by (cases ?R)
  from extxyz_frame_store_char [of pbc_option i s] F obtain C1 where
    f: "extxyz_frame_store pbc_option i s
          = (case r1 of Inl e \<Rightarrow> Some e | Inr _ \<Rightarrow> None,
             s\<lparr>loc_content := C1, out_printed := out_printed s @ p1\<rparr>)"
    and c1: "\<forall>ls. r1 = Inr ls \<longrightarrow> C1 = loc_content s @ ls"
    by auto
  show ?case
  proof (cases r1)
    case (Inl e)
    with f F show ?thesis by (intro exI [of _ C1]) simp
  next
    case (Inr frame_lines)
    let ?s1 = "s\<lparr>loc_content := C1, out_printed := out_printed s @ p1\<rparr>"
    from c1 Inr have C1: "C1 = loc_content s @ frame_lines" by simp
    from Cons.IH [of ?s1] R obtain C where
      r: "extxyz_frames_store pbc_option is ?s1
            = (case r2 of Inl e \<Rightarrow> Some e | Inr _ \<Rightarrow> None,
               s\<lparr>loc_content := C, out_printed := out_printed s @ p1 @ p2\<rparr>)"
      and c: "\<forall>ls. r2 = Inr ls \<longrightarrow> C = C1 @ ls"
      by auto
    show ?thesis
    proof (intro exI [of _ C] conjI allI impI)
      show "extxyz_frames_store pbc_option (i # is) s
              = (case snd (extxyz_frames ?at ?co ?en ?fo ?bx ?lb pbc_option (i # is)) of
                   Inl e \<Rightarrow> Some e | Inr _ \<Rightarrow> None,
                 s\<lparr>loc_content := C,
                   out_printed := out_printed s
                     @ fst (extxyz_frames ?at ?co ?en ?fo ?bx ?lb pbc_option (i # is))\<rparr>)"
        using f Inr r F R by (cases r2) simp_all
    next
      fix ls assume "snd (extxyz_frames ?at ?co ?en ?fo ?bx ?lb pbc_option (i # is)) = Inr ls"
      with Inr F R obtain ls' where "r2 = Inr ls'" and "ls = frame_lines @ ls'"
        by (cases r2) simp_all
      with c C1 show "C = loc_content s @ ls" by simp
    qed
  qed
qed

lemma generate_extxyz_content_store_char:
  "\<exists>C. generate_extxyz_content_store pbc_option s
         = (snd (generate_extxyz_content (in_atom_types s) (in_coordinates s) (in_energies s)
                   (in_forces s) (in_box s) (in_labels s) pbc_option),
            s\<lparr>loc_content := C,
              out_printed := out_printed s
                @ fst (generate_extxyz_content (in_atom_types s) (in_coordinates s) (in_energies s)
                         (in_forces s) (in_box s) (in_labels s) pbc_option)\<rparr>)"
proof -
  let ?at = "in_atom_types s" and ?co = "in_coordinates s" and ?en = "in_energies s"
  let ?fo = "in_forces s" and ?bx = "in_box s" and ?lb = "in_labels s"
  let ?R = "extxyz_frames ?at ?co ?en ?fo ?bx ?lb pbc_option [0..<length ?at]"
  let ?s0 = "s\<lparr>loc_content := []\<rparr>"
  obtain printed res where x: "?R = (printed, res)" by (cases ?R)
  from extxyz_frames_store_char [of pbc_option "[0..<length ?at]" ?s0] x obtain C where
    r: "extxyz_frames_store pbc_option [0..<length ?at] ?s0
          = (case res of Inl e \<Rightarrow> Some e | Inr _ \<Rightarrow> None,
             s\<lparr>loc_content := C, out_printed := out_printed s @ printed\<rparr>)"
    and c: "\<forall>ls. res = Inr ls \<longrightarrow> C = ls"
    by auto
  show ?thesis
    using r c x
    by (intro exI [of _ C])
       (cases res; simp add: generate_extxyz_content_store_def generate_extxyz_content_def Let_def)
qed

lemma project_frames_store_char:
  "\<exists>V. project_frames_store to_float is s
         = (case map_raise (project_frame to_float (in_atom_types s) (in_coordinates s)) is of
              Inl e \<Rightarrow> Some e | Inr _ \<Rightarrow> None, s\<lparr>loc_frames := V\<rparr>)
       \<and> (\<forall>vs. map_raise (project_frame to_float (in_atom_types s) (in_coordinates s)) is = Inr vs
             \<longrightarrow> V = loc_frames s @ vs)"
proof (induction "is" arbitrary: s)
  case Nil
  have "s = s\<lparr>loc_frames := loc_frames s\<rparr>" by simp
  then show ?case by (intro exI [of _ "loc_frames s"]) simp
next
  case (Cons i "is")
  let ?pf = "project_frame to_float (in_atom_types s) (in_coordinates s)"
  show ?case
  proof (cases "?pf i")
    case (Inl e)
    have "s = s\<lparr>loc_frames := loc_frames s\<rparr>" by simp
    with Inl show ?thesis by (intro exI [of _ "loc_frames s"]) simp
  next
    case (Inr view)
    let ?s1 = "s\<lparr>loc_frames := loc_frames s @ [view]\<rparr>"
    from Cons.IH [of ?s1] obtain V where
      r: "project_frames_store to_float is ?s1
            = (case map_raise ?pf is of Inl e \<Rightarrow> Some e | Inr _ \<Rightarrow> None, s\<lparr>loc_frames := V\<rparr>)"
      and c: "\<forall>vs. map_raise ?pf is = Inr vs \<longrightarrow> V = loc_frames s @ view # vs"
      by auto
    show ?thesis
    proof (intro exI [of _ V] conjI allI impI)
      show "project_frames_store to_float (i # is) s
              = (case map_raise ?pf (i # is) of Inl e \<Rightarrow> Some e | Inr _ \<Rightarrow> None, s\<lparr>loc_frames := V\<rparr>)"
        using Inr r by (simp split: sum.splits)
    next
      fix vs assume "map_raise ?pf (i # is) = Inr vs"
      with Inr obtain vs' where "map_raise ?pf is = Inr vs'" and "vs = view # vs'"
        by (auto split: sum.splits)
      with c show "V = loc_frames s @ vs" by simp
    qed
  qed
qed

lemma project_store_char:
  "\<exists>V. project_store to_float s
         = (case project_frames to_float (in_atom_types s) (in_coordinates s) of
              Inl e \<Rightarrow> Some e | Inr _ \<Rightarrow> None, s\<lparr>loc_frames := V\<rparr>)
       \<and> (\<forall>vs. project_frames to_float (in_atom_types s) (in_coordinates s) = Inr vs \<longrightarrow> V = vs)"
  using project_frames_store_char [of to_float "[0..<length (in_atom_types s)]" "s\<lparr>loc_frames := []\<rparr>"]
  by (simp add: project_store_def project_frames_def)

text \<open>
  C9. Run on any store, whatever earlier calls left in its local lists, each core
  operation (the validator, the plain serializer, the extended serializer and the frame
  projection) ends, normally or with an exception, in a store whose six input collections
  are those it started with; and what it returns or raises is what the corresponding
  function of the input collections alone gives, so nothing left by an earlier call
  influences a later one.
\<close>

theorem operations_leave_inputs_unchanged:
  "inputs_of (snd (validate_store s)) = inputs_of s
   \<and> inputs_of (snd (generate_xyz_content_store s)) = inputs_of s
   \<and> inputs_of (snd (generate_extxyz_content_store pbc_option s)) = inputs_of s
   \<and> inputs_of (snd (project_store to_float s)) = inputs_of s
   \<and> fst (validate_store s)
       = (case snd (validate_data_consistency (in_atom_types s) (in_coordinates s) (in_energies s)
                      (in_forces s) (in_box s) (in_labels s)) of
            Inl e \<Rightarrow> Some e | Inr _ \<Rightarrow> None)
   \<and> fst (generate_xyz_content_store s)
       = snd (generate_xyz_content (in_atom_types s) (in_coordinates s) (in_energies s))
   \<and> fst (generate_extxyz_content_store pbc_option s)
       = snd (generate_extxyz_content (in_atom_types s) (in_coordinates s) (in_energies s)
                (in_forces s) (in_box s) (in_labels s) pbc_option)
   \<and> fst (project_store to_float s)
       = (case project_frames to_float (in_atom_types s) (in_coordinates s) of
            Inl e \<Rightarrow> Some e | Inr _ \<Rightarrow> None)"
proof -
  from validate_store_char [of s] obtain E where
    "validate_store s
       = (case snd (validate_data_consistency (in_atom_types s) (in_coordinates s) (in_energies s)
                      (in_forces s) (in_box s) (in_labels s)) of
            Inl e \<Rightarrow> Some e | Inr _ \<Rightarrow> None,
          s\<lparr>loc_errors := E,
            out_printed := out_printed s
              @ fst (validate_data_consistency (in_atom_types s) (in_coordinates s) (in_energies s)
                       (in_forces s) (in_box s) (in_labels s))\<rparr>)"
    by blast
  then have v: "inputs_of (snd (validate_store s)) = inputs_of s"
    "fst (validate_store s)
       = (case snd (validate_data_consistency (in_atom_types s) (in_coordinates s) (in_energies s)
                      (in_forces s) (in_box s) (in_labels s)) of
            Inl e \<Rightarrow> Some e | Inr _ \<Rightarrow> None)"
    by (simp_all add: inputs_of_def)
  from generate_xyz_content_store_char [of s] obtain C where
    "generate_xyz_content_store s
       = (snd (generate_xyz_content (in_atom_types s) (in_coordinates s) (in_energies s)),
          s\<lparr>loc_content := C,
            out_printed := out_printed s
              @ fst (generate_xyz_content (in_atom_types s) (in_coordinates s) (in_energies s))\<rparr>)"
    by blast
  then have x: "inputs_of (snd (generate_xyz_content_store s)) = inputs_of s"
    "fst (generate_xyz_content_store s)
       = snd (generate_xyz_content (in_atom_types s) (in_coordinates s) (in_energies s))"
    by (simp_all add: inputs_of_def)
  from generate_extxyz_content_store_char [of pbc_option s] obtain C' where
    "generate_extxyz_content_store pbc_option s
       = (snd (generate_extxyz_content (in_atom_types s) (in_coordinates s) (in_energies s)
                 (in_forces s) (in_box s) (in_labels s) pbc_option),
          s\<lparr>loc_content := C',
            out_printed := out_printed s
              @ fst (generate_extxyz_content (in_atom_types s) (in_coordinates s) (in_energies s)
                       (in_forces s) (in_box s) (in_labels s) pbc_option)\<rparr>)"
    by blast
  then have e: "inputs_of (snd (generate_extxyz_content_store pbc_option s)) = inputs_of s"
    "fst (generate_extxyz_content_store pbc_option s)
       = snd (generate_extxyz_content (in_atom_types s) (in_coordinates s) (in_energies s)
                (in_forces s) (in_box s) (in_labels s) pbc_option)"
    by (simp_all add: inputs_of_def)
  from project_store_char [of to_float s] obtain V where
    "project_store to_float s
       = (case project_frames to_float (in_atom_types s) (in_coordinates s) of
            Inl e \<Rightarrow> Some e | Inr _ \<Rightarrow> None, s\<lparr>loc_frames := V\<rparr>)"
    by blast
  then have p: "inputs_of (snd (project_store to_float s)) = inputs_of s"
    "fst (project_store to_float s)
       = (case project_frames to_float (in_atom_types s) (in_coordinates s) of
            Inl e \<Rightarrow> Some e | Inr _ \<Rightarrow> None)"
    by (simp_all add: inputs_of_def)
  from v x e p show ?thesis by simp
qed

end
